theory Spec2Isabelle
  imports Complex_Main
begin

section \<open>Drive-Time Company Map Viewer: a model of \<^verbatim>\<open>streamlit_app.py\<close>\<close>

text \<open>
  The program is one Streamlit script. Streamlit runs the whole script from top to bottom
  on every user interaction; one such run is a render pass. Two stores outlive a pass:
  \<^item> \<^verbatim>\<open>st.session_state\<close>, one per browser session;
  \<^item> the store behind \<^verbatim>\<open>@st.cache_data\<close>, one per server process, shared by
    all sessions.
  The model threads both through each pass, together with a log of what the pass does to
  the outside world (calls to the routing provider, seconds slept).
\<close>

subsection \<open>Values, exceptions and the routing provider\<close>

datatype exn =
    ApiError string
  | ValueError string
  | KeyError string
  | AssertionError string

text \<open>
  A number cell of the workbook arrives in the script as a Python value with its type:
  pandas reads a column of whole numbers as integers and any other numeric column as
  floats, and a row of \<^verbatim>\<open>iterrows()\<close> over a sheet that also has text columns
  keeps each cell's type. A float that is a number is given by its value, but for the
  negative zero, which has a bit pattern of its own. Cells that are not numbers (NaN) are
  outside the model.
\<close>

datatype number = PyInt int | PyFloat real | PyNegZero

fun value_of :: "number \<Rightarrow> real" where
  "value_of (PyInt n) = of_int n"
| "value_of (PyFloat r) = r"
| "value_of PyNegZero = 0"

text \<open>\<^verbatim>\<open>openrouteservice.Client(key=...)\<close>: the client object holds the credential.\<close>

datatype client = Client string

text \<open>The provider answers with a GeoJSON document; only its identity matters here.\<close>

type_synonym geojson = string

text \<open>
  \<^verbatim>\<open>_client.isochrones(locations=[[lon, lat]], profile='driving-car', range_type='time',
  intervals=[seconds])\<close> is a request to an external service. The service is a parameter of
  the model: given the client, the point and the duration it answers with a document or
  raises.
\<close>

type_synonym provider = "client \<Rightarrow> number \<Rightarrow> number \<Rightarrow> int \<Rightarrow> exn + geojson"

type_synonym request = "client \<times> number \<times> number \<times> int"

type_synonym net_call = "request \<times> (exn + geojson)"

subsection \<open>The cache of \<^verbatim>\<open>st.cache_data\<close>\<close>

text \<open>
  \<^verbatim>\<open>st.cache_data\<close> memoises a function on its arguments. It hashes each argument
  together with its parameter name, and it skips every parameter whose name starts with an
  underscore (that is how an unhashable argument is passed to a cached function). The hash
  of a number takes in its type and, for a float, its bit pattern: the integer 40 and the
  float 40.0 are two keys, and so are 0.0 and -0.0. The
  entries have no expiry and no size limit unless \<^verbatim>\<open>ttl\<close> or \<^verbatim>\<open>max_entries\<close> is
  given, and the source gives neither. A call that raises stores nothing.
\<close>

datatype pyval = PClient client | PNum number

type_synonym cache_key = "(string \<times> pyval) list"

definition hashed_params :: "(string \<times> pyval) list \<Rightarrow> cache_key" where
  "hashed_params args = filter (\<lambda>(name, v). \<not> (name \<noteq> [] \<and> hd name = CHR ''_'')) args"

record world =
  cache :: "cache_key \<rightharpoonup> geojson"
  net_calls :: "net_call list"
  sleeps :: nat

definition cold :: world where
  "cold = \<lparr>cache = Map.empty, net_calls = [], sleeps = 0\<rparr>"

text \<open>The body of \<^verbatim>\<open>get_isochrone\<close>: one request, logged with its answer.\<close>

definition isochrones :: "provider \<Rightarrow> client \<Rightarrow> number \<Rightarrow> number \<Rightarrow> int \<Rightarrow> world \<Rightarrow> (exn + geojson) \<times> world" where
  "isochrones net c lon lat seconds w =
     (let r = net c lon lat seconds
      in (r, w\<lparr>net_calls := net_calls w @ [((c, lon, lat, seconds), r)]\<rparr>))"

text \<open>\<^verbatim>\<open>def get_isochrone(_client, lon, lat, seconds)\<close>: the parameter names, in order.\<close>

definition get_isochrone_params :: "string list" where
  "get_isochrone_params = [''_client'', ''lon'', ''lat'', ''seconds'']"

definition get_isochrone_key :: "client \<Rightarrow> number \<Rightarrow> number \<Rightarrow> int \<Rightarrow> cache_key" where
  "get_isochrone_key c lon lat seconds =
     hashed_params (zip get_isochrone_params [PClient c, PNum lon, PNum lat, PNum (PyInt seconds)])"

text \<open>The decorated function: look the key up, call the body on a miss, store a result.\<close>

definition get_isochrone :: "provider \<Rightarrow> client \<Rightarrow> number \<Rightarrow> number \<Rightarrow> int \<Rightarrow> world \<Rightarrow> (exn + geojson) \<times> world" where
  "get_isochrone net c lon lat seconds w =
     (let key = get_isochrone_key c lon lat seconds
      in case cache w key of
           Some v \<Rightarrow> (Inr v, w)
         | None \<Rightarrow>
             (case isochrones net c lon lat seconds w of
                (Inl e, w') \<Rightarrow> (Inl e, w')
              | (Inr v, w') \<Rightarrow> (Inr v, w'\<lparr>cache := (cache w')(key \<mapsto> v)\<rparr>)))"

text \<open>Two providers for the worked examples: one that answers, one that is down.\<close>

definition provider_up :: provider where
  "provider_up c lon lat seconds = Inr ''polygon''"

definition provider_down :: provider where
  "provider_down c lon lat seconds = Inl (ApiError ''quota exceeded'')"

definition warm :: world where
  "warm = \<lparr>cache = [get_isochrone_key (Client ''key-A'') (PyInt (- 74)) (PyInt 40) 600 \<mapsto> ''polygon''],
           net_calls = [((Client ''key-A'', PyInt (- 74), PyInt 40, 600), Inr ''polygon'')],
           sleeps = 0\<rparr>"

subsection \<open>The uploaded workbook\<close>

text \<open>
  A sheet is a header (the column names) and its rows. A row carries the cells the script
  reads; the script reads them only after the header check has passed, so a row's value in
  a column the header lacks is never looked at. In the \<^verbatim>\<open>Projects\<close> sheet the
  columns \<^verbatim>\<open>Latitude\<close> and \<^verbatim>\<open>Longitude\<close> are the fields
  \<open>Project_Latitude\<close> and \<open>Project_Longitude\<close>.
\<close>

record company_row =
  Company_Location :: string
  Latitude :: number
  Longitude :: number
  Company_Name :: string

record project_row =
  Project_Name :: string
  Project_Latitude :: number
  Project_Longitude :: number

record 'r dataframe =
  columns :: "string list"
  rows :: "'r list"

text \<open>A workbook has a sheet of a given name or not.\<close>

record workbook =
  Companies :: "company_row dataframe option"
  Projects :: "project_row dataframe option"

definition quoted :: "string \<Rightarrow> string" where
  "quoted s = [CHR 0x27] @ s @ [CHR 0x27]"

text \<open>\<^verbatim>\<open>pd.read_excel(xls, name)\<close> raises when the workbook has no such sheet.\<close>

definition read_excel :: "'r dataframe option \<Rightarrow> string \<Rightarrow> exn + 'r dataframe" where
  "read_excel sheet name =
     (case sheet of
        None \<Rightarrow> Inl (ValueError (''Worksheet named '' @ quoted name @ '' not found''))
      | Some df \<Rightarrow> Inr df)"

text \<open>
  \<^verbatim>\<open>for col in [...]: assert col in df.columns, f"'<sheet>' sheet must include
  '{col}' column."\<close>: the first column that is absent raises.
\<close>

fun assert_columns :: "string \<Rightarrow> string list \<Rightarrow> string list \<Rightarrow> exn option" where
  "assert_columns sheet [] cols = None"
| "assert_columns sheet (col # rest) cols =
     (if col \<in> set cols then assert_columns sheet rest cols
      else Some (AssertionError
             (quoted sheet @ '' sheet must include '' @ quoted col @ '' column.'')))"

definition companies_required :: "string list" where
  "companies_required = [''Company Location'', ''Latitude'', ''Longitude'', ''Company Name'']"

definition projects_required :: "string list" where
  "projects_required = [''Project Name'', ''Latitude'', ''Longitude'']"

text \<open>
  The body of the \<^verbatim>\<open>try\<close> block. The upload is given by what
  \<^verbatim>\<open>pd.ExcelFile\<close> makes of it: an exception or a workbook.
\<close>

definition load_and_validate ::
  "exn + workbook \<Rightarrow> exn + (company_row dataframe \<times> project_row dataframe)" where
  "load_and_validate upload =
     (case upload of
        Inl e \<Rightarrow> Inl e
      | Inr xls \<Rightarrow>
          (case read_excel (Companies xls) ''Companies'' of
             Inl e \<Rightarrow> Inl e
           | Inr companies_df \<Rightarrow>
               (case read_excel (Projects xls) ''Projects'' of
                  Inl e \<Rightarrow> Inl e
                | Inr projects_df \<Rightarrow>
                    (case assert_columns ''Companies'' companies_required (columns companies_df) of
                       Some e \<Rightarrow> Inl e
                     | None \<Rightarrow>
                         (case assert_columns ''Projects'' projects_required (columns projects_df) of
                            Some e \<Rightarrow> Inl e
                          | None \<Rightarrow> Inr (companies_df, projects_df))))))"

text \<open>\<^verbatim>\<open>str(e)\<close>, as the f-string of the error notice takes it.\<close>

fun str :: "exn \<Rightarrow> string" where
  "str (ApiError m) = m"
| "str (ValueError m) = m"
| "str (KeyError k) = quoted k"
| "str (AssertionError m) = m"

subsection \<open>Session state and widgets\<close>

record project_site =
  lat :: number
  lon :: number
  visible :: bool

text \<open>
  \<^verbatim>\<open>project_sites\<close> is a dict that the script iterates, so its order matters: an
  association list in insertion order. \<^verbatim>\<open>competitor_visibility\<close> is only looked up.
\<close>

record session_state =
  competitor_visibility :: "string \<rightharpoonup> bool"
  project_sites :: "(string \<times> project_site) list"
  all_competitors :: "string set"
  api_key :: string

definition new_session :: session_state where
  "new_session = \<lparr>competitor_visibility = Map.empty, project_sites = [],
                  all_competitors = {}, api_key = []\<rparr>"

text \<open>
  Lines 15 to 20: \<^verbatim>\<open>setdefault\<close> for the three stores and the test for
  \<^verbatim>\<open>api_key\<close>. A session that has never run the script has no key at all
  (\<open>None\<close>); these lines always run to their end, so afterwards it has all four.
\<close>

definition setdefaults :: "session_state option \<Rightarrow> session_state" where
  "setdefaults sess = (case sess of None \<Rightarrow> new_session | Some s \<Rightarrow> s)"

text \<open>
  What the user does arrives as the values the widgets return. A widget is called with
  its default (\<^verbatim>\<open>value=\<close>) and returns what the user has set it to, which is the
  default as long as the user has not touched it.
\<close>

record inputs =
  text_input :: "string \<Rightarrow> string"
  slider :: int
  number_input :: "int \<Rightarrow> int"
  uploaded_file :: "(exn + workbook) option"
  checkbox :: "string \<Rightarrow> bool \<Rightarrow> bool"

text \<open>\<^verbatim>\<open>d[k] = v\<close> on an insertion-ordered dict.\<close>

fun dict_setitem :: "('k \<times> 'v) list \<Rightarrow> 'k \<Rightarrow> 'v \<Rightarrow> ('k \<times> 'v) list" where
  "dict_setitem [] k v = [(k, v)]"
| "dict_setitem ((k', v') # d) k v =
     (if k' = k then (k, v) # d else (k', v') # dict_setitem d k v)"

text \<open>\<^verbatim>\<open>d.setdefault(k, v)\<close>, for its effect on the dict.\<close>

definition setdefault :: "('k \<rightharpoonup> 'v) \<Rightarrow> 'k \<Rightarrow> 'v \<Rightarrow> ('k \<rightharpoonup> 'v)" where
  "setdefault d k v = (case d k of None \<Rightarrow> d(k \<mapsto> v) | Some u \<Rightarrow> d)"

text \<open>Lines 66 to 72.\<close>

definition init_project_sites :: "project_row list \<Rightarrow> session_state \<Rightarrow> session_state" where
  "init_project_sites projects s =
     (if project_sites s = [] then
        s\<lparr>project_sites :=
            foldl (\<lambda>d row. dict_setitem d (Project_Name row)
                     \<lparr>lat = Project_Latitude row, lon = Project_Longitude row, visible = True\<rparr>)
              (project_sites s) projects\<rparr>
      else s)"

text \<open>Lines 85 to 88.\<close>

fun init_competitors :: "company_row list \<Rightarrow> session_state \<Rightarrow> session_state" where
  "init_competitors [] s = s"
| "init_competitors (row # companies) s =
     init_competitors companies
       (s\<lparr>all_competitors := insert (Company_Location row) (all_competitors s),
          competitor_visibility := setdefault (competitor_visibility s) (Company_Location row) True\<rparr>)"

text \<open>Lines 92 and 93: every stored site gets a checkbox, whose value becomes its flag.\<close>

definition project_checkboxes :: "(string \<Rightarrow> bool \<Rightarrow> bool) \<Rightarrow> session_state \<Rightarrow> session_state" where
  "project_checkboxes cb s =
     s\<lparr>project_sites :=
         map (\<lambda>(pname, pdata). (pname, pdata\<lparr>visible := cb pname (visible pdata)\<rparr>))
           (project_sites s)\<rparr>"

subsection \<open>The map and the palette\<close>

text \<open>
  Of a map the model keeps its centre and, in drawing order, its layers: a polygon with
  its fill colour, a marker with its position, popup text and icon colour. Layer names
  and the other style constants are left out.
\<close>

datatype layer = GeoJson geojson string | Marker "number \<times> number" string string

record folium_map =
  location :: "real \<times> real"
  layers :: "layer list"

text \<open>\<^verbatim>\<open>Series.mean()\<close>: the mean of no values is NaN, here \<open>None\<close>.\<close>

definition mean :: "number list \<Rightarrow> real option" where
  "mean xs = (if xs = [] then None else Some (sum_list (map value_of xs) / real (length xs)))"

text \<open>\<^verbatim>\<open>folium.Map(location=[a, b], ...)\<close> raises on a NaN coordinate.\<close>

definition folium_Map :: "real option \<Rightarrow> real option \<Rightarrow> exn + folium_map" where
  "folium_Map a b =
     (case a of
        None \<Rightarrow> Inl (ValueError ''Location values cannot contain NaNs.'')
      | Some la \<Rightarrow>
          (case b of
             None \<Rightarrow> Inl (ValueError ''Location values cannot contain NaNs.'')
           | Some lo \<Rightarrow> Inr \<lparr>location = (la, lo), layers = []\<rparr>))"

text \<open>
  \<^verbatim>\<open>plt.colormaps['tab20']\<close> through \<^verbatim>\<open>mcolors.to_hex\<close>: the twenty
  colours of matplotlib's table, \<^verbatim>\<open>colormap.N\<close> being their number. The table is
  the library's; the colour assignment below takes the palette as an argument.
\<close>

definition tab20 :: "string list" where
  "tab20 = [''#1f77b4'', ''#aec7e8'', ''#ff7f0e'', ''#ffbb78'', ''#2ca02c'', ''#98df8a'',
            ''#d62728'', ''#ff9896'', ''#9467bd'', ''#c5b0d5'', ''#8c564b'', ''#c49c94'',
            ''#e377c2'', ''#f7b6d2'', ''#7f7f7f'', ''#c7c7c7'', ''#bcbd22'', ''#dbdb8d'',
            ''#17becf'', ''#9edae5'']"

text \<open>
  The elements of a list that are not in \<open>S\<close>, each once, in order of first appearance.
  With \<open>S\<close> empty this is \<^verbatim>\<open>Series.unique()\<close>.
\<close>

fun unseen :: "'a set \<Rightarrow> 'a list \<Rightarrow> 'a list" where
  "unseen S [] = []"
| "unseen S (x # xs) = (if x \<in> S then unseen S xs else x # unseen (insert x S) xs)"

definition unique :: "'a list \<Rightarrow> 'a list" where
  "unique xs = unseen {} xs"

text \<open>
  Lines 100 to 105: \<^verbatim>\<open>{name: to_hex(colormap(i % colormap.N)) for i, name in
  enumerate(unique_companies)}\<close>, a dict built in enumeration order.
\<close>

definition company_colors :: "string list \<Rightarrow> string list \<Rightarrow> (string \<times> string) list" where
  "company_colors colormap names =
     foldl (\<lambda>d (i, name). dict_setitem d name (colormap ! (i mod length colormap)))
       [] (enumerate 0 (unique names))"

subsection \<open>The two drawing loops\<close>

definition sleep :: "nat \<Rightarrow> world \<Rightarrow> world" where
  "sleep n w = w\<lparr>sleeps := sleeps w + n\<rparr>"

definition add_to :: "layer \<Rightarrow> folium_map \<Rightarrow> folium_map" where
  "add_to l m = m\<lparr>layers := layers m @ [l]\<rparr>"

text \<open>
  Lines 108 to 123. An exception of \<^verbatim>\<open>get_isochrone\<close> is not caught: it ends the
  loop and the pass. The result is the exception, if any, the map and the world so far.
\<close>

fun project_isochrones ::
  "provider \<Rightarrow> client \<Rightarrow> int \<Rightarrow> (string \<times> project_site) list \<Rightarrow> folium_map \<Rightarrow> world
     \<Rightarrow> exn option \<times> folium_map \<times> world" where
  "project_isochrones net c seconds [] m w = (None, m, w)"
| "project_isochrones net c seconds ((pname, pdata) # sites) m w =
     (if visible pdata then
        (case get_isochrone net c (lon pdata) (lat pdata) seconds w of
           (Inl e, w') \<Rightarrow> (Some e, m, w')
         | (Inr polygon, w') \<Rightarrow>
             project_isochrones net c seconds sites
               (add_to (Marker (lat pdata, lon pdata) pname ''red'')
                  (add_to (GeoJson polygon ''#ff0000'') m))
               (sleep 1 w'))
      else project_isochrones net c seconds sites m w)"

text \<open>
  Lines 126 to 143. The two subscripts,
  \<^verbatim>\<open>competitor_visibility[cname]\<close> and \<^verbatim>\<open>company_colors[...]\<close>, raise
  \<^verbatim>\<open>KeyError\<close> on a key that is not there.
\<close>

fun competitor_isochrones ::
  "provider \<Rightarrow> client \<Rightarrow> int \<Rightarrow> (string \<rightharpoonup> bool) \<Rightarrow> (string \<times> string) list \<Rightarrow> company_row list
     \<Rightarrow> folium_map \<Rightarrow> world \<Rightarrow> exn option \<times> folium_map \<times> world" where
  "competitor_isochrones net c seconds vis colors [] m w = (None, m, w)"
| "competitor_isochrones net c seconds vis colors (row # companies) m w =
     (case vis (Company_Location row) of
        None \<Rightarrow> (Some (KeyError (Company_Location row)), m, w)
      | Some shown \<Rightarrow>
          if shown then
            (case get_isochrone net c (Longitude row) (Latitude row) seconds w of
               (Inl e, w') \<Rightarrow> (Some e, m, w')
             | (Inr polygon, w') \<Rightarrow>
                 (case map_of colors (Company_Name row) of
                    None \<Rightarrow> (Some (KeyError (Company_Name row)), m, w')
                  | Some color \<Rightarrow>
                      competitor_isochrones net c seconds vis colors companies
                        (add_to (Marker (Latitude row, Longitude row) (Company_Location row) color)
                           (add_to (GeoJson polygon color) m))
                        (sleep 1 w')))
          else competitor_isochrones net c seconds vis colors companies m w)"

subsection \<open>A render pass\<close>

text \<open>
  A pass ends in one of three ways: \<^verbatim>\<open>st.stop()\<close> after a notice, an exception that
  nothing catches (Streamlit shows it and ends the run), or the map and the legend on the
  page. The legend is the colour dict in its order; its HTML is left out.
\<close>

datatype notice = St_warning string | St_info string | St_error string

datatype outcome =
    Stopped notice
  | Raised exn
  | Rendered folium_map "(string \<times> string) list"

text \<open>The three notices. The leading bytes are the UTF-8 of the emoji in the source.\<close>

definition api_key_warning :: string where
  "api_key_warning =
     [CHR 0xE2, CHR 0x9A, CHR 0xA0, CHR 0xEF, CHR 0xB8, CHR 0x8F]
     @ '' Enter your API key to enable drive-time analysis features.''"

definition upload_info :: string where
  "upload_info =
     [CHR 0xE2, CHR 0xAC, CHR 0x86, CHR 0xEF, CHR 0xB8, CHR 0x8F]
     @ '' Please upload an Excel file with '' @ quoted ''Companies'' @ '' and ''
     @ quoted ''Projects'' @ '' sheets.''"

definition load_error :: "exn \<Rightarrow> string" where
  "load_error e = [CHR 0xE2, CHR 0x9D, CHR 0x8C] @ '' Error loading data: '' @ str e"

text \<open>Lines 65 to 170: what the script does once the data is loaded.\<close>

definition render ::
  "provider \<Rightarrow> inputs \<Rightarrow> client \<Rightarrow> int \<Rightarrow> company_row dataframe \<Rightarrow> project_row dataframe
     \<Rightarrow> session_state \<Rightarrow> world \<Rightarrow> outcome \<times> session_state \<times> world" where
  "render net inp c drive_time_seconds companies_df projects_df s w =
     (let s1 = init_project_sites (rows projects_df) s;
          s2 = init_competitors (rows companies_df) s1;
          s3 = project_checkboxes (checkbox inp) s2
      in case folium_Map (mean (map Latitude (rows companies_df)))
                (mean (map Longitude (rows companies_df))) of
           Inl e \<Rightarrow> (Raised e, s3, w)
         | Inr m \<Rightarrow>
             (let colors = company_colors tab20 (map Company_Name (rows companies_df))
              in case project_isochrones net c drive_time_seconds (project_sites s3) m w of
                   (Some e, m1, w1) \<Rightarrow> (Raised e, s3, w1)
                 | (None, m1, w1) \<Rightarrow>
                     (case competitor_isochrones net c drive_time_seconds
                             (competitor_visibility s3) colors (rows companies_df) m1 w1 of
                        (Some e, m2, w2) \<Rightarrow> (Raised e, s3, w2)
                      | (None, m2, w2) \<Rightarrow> (Rendered m2 colors, s3, w2))))"

text \<open>
  Lines 22 to 28: the key field shows the stored key; a non-empty entry replaces it.
\<close>

definition store_api_key :: "inputs \<Rightarrow> session_state \<Rightarrow> session_state" where
  "store_api_key inp s =
     (let api_key_input = text_input inp (api_key s)
      in if api_key_input \<noteq> [] then s\<lparr>api_key := api_key_input\<rparr> else s)"

text \<open>Lines 14 to 63, then \<open>render\<close>.\<close>

definition run ::
  "provider \<Rightarrow> inputs \<Rightarrow> session_state option \<Rightarrow> world \<Rightarrow> outcome \<times> session_state \<times> world" where
  "run net inp sess w =
     (let s = store_api_key inp (setdefaults sess)
      in if api_key s = [] then (Stopped (St_warning api_key_warning), s, w)
         else
           (let c = Client (api_key s);
                drive_time_minutes = number_input inp (slider inp);
                drive_time_seconds = drive_time_minutes * 60
            in case uploaded_file inp of
                 None \<Rightarrow> (Stopped (St_info upload_info), s, w)
               | Some upload \<Rightarrow>
                   (case load_and_validate upload of
                      Inl e \<Rightarrow> (Stopped (St_error (load_error e)), s, w)
                    | Inr (companies_df, projects_df) \<Rightarrow>
                        render net inp c drive_time_seconds companies_df projects_df s w)))"

text \<open>
  The sessions a browser can be in: a new one, and whatever a pass leaves behind, whatever
  the user did, the provider answered and the shared cache held.
\<close>

inductive reachable :: "session_state option \<Rightarrow> bool" where
  fresh: "reachable None"
| pass: "reachable sess \<Longrightarrow> run net inp sess w = (out, s', w') \<Longrightarrow> reachable (Some s')"

subsection \<open>Counting what a pass does\<close>

text \<open>The requests of a log that were answered with a polygon.\<close>

definition succeeded :: "net_call list \<Rightarrow> nat" where
  "succeeded calls = length (filter (\<lambda>call. \<not> isl (snd call)) calls)"

text \<open>The points, longitude first, for which the two loops ask for an isochrone.\<close>

definition project_points :: "(string \<times> project_site) list \<Rightarrow> (number \<times> number) list" where
  "project_points sites =
     map (\<lambda>(pname, pdata). (lon pdata, lat pdata)) (filter (\<lambda>(pname, pdata). visible pdata) sites)"

definition company_points :: "company_row list \<Rightarrow> (number \<times> number) list" where
  "company_points companies = map (\<lambda>row. (Longitude row, Latitude row)) companies"

text \<open>The points whose isochrone for a duration is in the cache.\<close>

definition cached :: "int \<Rightarrow> world \<Rightarrow> (number \<times> number) set" where
  "cached seconds w = {(x, y). cache w (get_isochrone_key (Client []) x y seconds) \<noteq> None}"

subsection \<open>Worked inputs\<close>

text \<open>
  One company row and one project row, at the coordinates of the specification's example;
  widgets that the user has left alone return their defaults.
\<close>

definition acme_companies :: "company_row dataframe" where
  "acme_companies =
     \<lparr>columns = [''Company Location'', ''Latitude'', ''Longitude'', ''Company Name''],
      rows = [\<lparr>Company_Location = ''Acme HQ'', Latitude = PyFloat (401 / 10), Longitude = PyFloat (- 741 / 10),
               Company_Name = ''Acme''\<rparr>]\<rparr>"

definition one_project :: "project_row dataframe" where
  "one_project =
     \<lparr>columns = [''Project Name'', ''Latitude'', ''Longitude''],
      rows = [\<lparr>Project_Name = ''Site 1'', Project_Latitude = PyInt 40, Project_Longitude = PyInt (- 74)\<rparr>]\<rparr>"

definition untouched :: inputs where
  "untouched = \<lparr>text_input = (\<lambda>d. d), slider = 10, number_input = (\<lambda>d. d),
                uploaded_file = None, checkbox = (\<lambda>label d. d)\<rparr>"

definition with_key :: inputs where
  "with_key = untouched\<lparr>text_input := (\<lambda>d. ''secret'')\<rparr>"

definition acme_upload :: inputs where
  "acme_upload =
     with_key\<lparr>uploaded_file := Some (Inr \<lparr>Companies = Some acme_companies,
                                              Projects = Some one_project\<rparr>)\<rparr>"

definition no_latitude_companies :: "company_row dataframe" where
  "no_latitude_companies =
     acme_companies\<lparr>columns := [''Company Location'', ''Longitude'', ''Company Name'']\<rparr>"

definition no_latitude_workbook :: workbook where
  "no_latitude_workbook = \<lparr>Companies = Some no_latitude_companies, Projects = Some one_project\<rparr>"

definition no_latitude_upload :: inputs where
  "no_latitude_upload = with_key\<lparr>uploaded_file := Some (Inr no_latitude_workbook)\<rparr>"

definition one_site_session :: session_state where
  "one_site_session =
     \<lparr>competitor_visibility = [''Acme HQ'' \<mapsto> True],
      project_sites = [(''Site 1'', \<lparr>lat = PyInt 40, lon = PyInt (- 74), visible = True\<rparr>)],
      all_competitors = {''Acme HQ''}, api_key = ''secret''\<rparr>"

definition other_projects :: "project_row dataframe" where
  "other_projects =
     \<lparr>columns = [''Project Name'', ''Latitude'', ''Longitude''],
      rows = [\<lparr>Project_Name = ''Site 2'', Project_Latitude = PyInt 41, Project_Longitude = PyInt (- 75)\<rparr>]\<rparr>"

definition other_upload :: inputs where
  "other_upload =
     untouched\<lparr>uploaded_file := Some (Inr \<lparr>Companies = Some acme_companies,
                                               Projects = Some other_projects\<rparr>)\<rparr>"

text \<open>The map of the worked example and the world after its first pass.\<close>

definition acme_map :: folium_map where
  "acme_map =
     \<lparr>location = (401 / 10, - 741 / 10),
      layers = [GeoJson ''polygon'' ''#ff0000'', Marker (PyInt 40, PyInt (- 74)) ''Site 1'' ''red'',
                GeoJson ''polygon'' ''#1f77b4'',
                Marker (PyFloat (401 / 10), PyFloat (- 741 / 10)) ''Acme HQ'' ''#1f77b4'']\<rparr>"

definition acme_world :: world where
  "acme_world =
     \<lparr>cache = [get_isochrone_key (Client ''secret'') (PyInt (- 74)) (PyInt 40) 600 \<mapsto> ''polygon'',
               get_isochrone_key (Client ''secret'') (PyFloat (- 741 / 10)) (PyFloat (401 / 10)) 600 \<mapsto> ''polygon''],
      net_calls = [((Client ''secret'', PyInt (- 74), PyInt 40, 600), Inr ''polygon''),
                   ((Client ''secret'', PyFloat (- 741 / 10), PyFloat (401 / 10), 600), Inr ''polygon'')],
      sleeps = 2\<rparr>"

definition failed_world :: world where
  "failed_world =
     warm\<lparr>net_calls := net_calls warm
               @ [((Client ''secret'', PyFloat (- 741 / 10), PyFloat (401 / 10), 600), Inl (ApiError ''quota exceeded''))],
          sleeps := 1\<rparr>"

text \<open>Two companies at one address, the project of the worked example.\<close>

definition twin_companies :: "company_row dataframe" where
  "twin_companies =
     \<lparr>columns = [''Company Location'', ''Latitude'', ''Longitude'', ''Company Name''],
      rows = [\<lparr>Company_Location = ''Acme HQ'', Latitude = PyFloat (401 / 10), Longitude = PyFloat (- 741 / 10),
               Company_Name = ''Acme''\<rparr>,
              \<lparr>Company_Location = ''Bolt HQ'', Latitude = PyFloat (401 / 10), Longitude = PyFloat (- 741 / 10),
               Company_Name = ''Bolt''\<rparr>]\<rparr>"

definition twin_upload :: inputs where
  "twin_upload =
     with_key\<lparr>uploaded_file := Some (Inr \<lparr>Companies = Some twin_companies,
                                              Projects = Some one_project\<rparr>)\<rparr>"

definition twin_map :: folium_map where
  "twin_map =
     \<lparr>location = (401 / 10, - 741 / 10),
      layers = [GeoJson ''polygon'' ''#ff0000'', Marker (PyInt 40, PyInt (- 74)) ''Site 1'' ''red'',
                GeoJson ''polygon'' ''#1f77b4'',
                Marker (PyFloat (401 / 10), PyFloat (- 741 / 10)) ''Acme HQ'' ''#1f77b4'',
                GeoJson ''polygon'' ''#aec7e8'',
                Marker (PyFloat (401 / 10), PyFloat (- 741 / 10)) ''Bolt HQ'' ''#aec7e8'']\<rparr>"

definition twin_session :: session_state where
  "twin_session =
     \<lparr>competitor_visibility = [''Acme HQ'' \<mapsto> True, ''Bolt HQ'' \<mapsto> True],
      project_sites = [(''Site 1'', \<lparr>lat = PyInt 40, lon = PyInt (- 74), visible = True\<rparr>)],
      all_competitors = {''Bolt HQ'', ''Acme HQ''}, api_key = ''secret''\<rparr>"

text \<open>
  The same number in two types: the project's sheet has whole numbers only, so its cells
  are integers; the companies' sheet has 40.1 in the column, so its 40 is a float.
\<close>

definition mixed_companies :: "company_row dataframe" where
  "mixed_companies =
     \<lparr>columns = [''Company Location'', ''Latitude'', ''Longitude'', ''Company Name''],
      rows = [\<lparr>Company_Location = ''Acme HQ'', Latitude = PyFloat 40, Longitude = PyFloat (- 74),
               Company_Name = ''Acme''\<rparr>,
              \<lparr>Company_Location = ''Bolt HQ'', Latitude = PyFloat (401 / 10),
               Longitude = PyFloat (- 741 / 10), Company_Name = ''Bolt''\<rparr>]\<rparr>"

definition mixed_workbook :: workbook where
  "mixed_workbook = \<lparr>Companies = Some mixed_companies, Projects = Some one_project\<rparr>"

definition mixed_upload :: inputs where
  "mixed_upload = with_key\<lparr>uploaded_file := Some (Inr mixed_workbook)\<rparr>"

definition mixed_map :: folium_map where
  "mixed_map =
     \<lparr>location = (801 / 20, - 1481 / 20),
      layers = [GeoJson ''polygon'' ''#ff0000'', Marker (PyInt 40, PyInt (- 74)) ''Site 1'' ''red'',
                GeoJson ''polygon'' ''#1f77b4'',
                Marker (PyFloat 40, PyFloat (- 74)) ''Acme HQ'' ''#1f77b4'',
                GeoJson ''polygon'' ''#aec7e8'',
                Marker (PyFloat (401 / 10), PyFloat (- 741 / 10)) ''Bolt HQ'' ''#aec7e8'']\<rparr>"

definition mixed_world :: world where
  "mixed_world =
     \<lparr>cache = [get_isochrone_key (Client ''secret'') (PyInt (- 74)) (PyInt 40) 600 \<mapsto> ''polygon'',
               get_isochrone_key (Client ''secret'') (PyFloat (- 74)) (PyFloat 40) 600 \<mapsto> ''polygon'',
               get_isochrone_key (Client ''secret'') (PyFloat (- 741 / 10)) (PyFloat (401 / 10)) 600
                 \<mapsto> ''polygon''],
      net_calls = [((Client ''secret'', PyInt (- 74), PyInt 40, 600), Inr ''polygon''),
                   ((Client ''secret'', PyFloat (- 74), PyFloat 40, 600), Inr ''polygon''),
                   ((Client ''secret'', PyFloat (- 741 / 10), PyFloat (401 / 10), 600),
                    Inr ''polygon'')],
      sleeps = 3\<rparr>"

section \<open>Properties of the cached retrieval\<close>

lemma get_isochrone_key_eq:
  "get_isochrone_key c x y seconds =
     [(''lon'', PNum x), (''lat'', PNum y), (''seconds'', PNum (PyInt seconds))]"
  by (simp add: get_isochrone_key_def get_isochrone_params_def hashed_params_def)

lemma get_isochrone_key_inj:
  "get_isochrone_key c x y seconds = get_isochrone_key c' x' y' seconds'
     \<longleftrightarrow> x = x' \<and> y = y' \<and> seconds = seconds'"
  by (simp add: get_isochrone_key_eq)

lemma get_isochrone_hit:
  "cache w (get_isochrone_key c x y seconds) = Some v \<Longrightarrow>
     get_isochrone net c x y seconds w = (Inr v, w)"
  by (simp add: get_isochrone_def Let_def)

lemma get_isochrone_miss_ok:
  "cache w (get_isochrone_key c x y seconds) = None \<Longrightarrow> net c x y seconds = Inr v \<Longrightarrow>
     get_isochrone net c x y seconds w =
       (Inr v, w\<lparr>net_calls := net_calls w @ [((c, x, y, seconds), Inr v)],
                 cache := (cache w)(get_isochrone_key c x y seconds \<mapsto> v)\<rparr>)"
  by (simp add: get_isochrone_def isochrones_def Let_def)

lemma get_isochrone_miss_fail:
  "cache w (get_isochrone_key c x y seconds) = None \<Longrightarrow> net c x y seconds = Inl e \<Longrightarrow>
     get_isochrone net c x y seconds w =
       (Inl e, w\<lparr>net_calls := net_calls w @ [((c, x, y, seconds), Inl e)]\<rparr>)"
  by (simp add: get_isochrone_def isochrones_def Let_def)

lemma get_isochrone_stores:
  assumes "get_isochrone net c x y seconds w = (Inr v, w')"
  shows "cache w' (get_isochrone_key c x y seconds) = Some v"
proof (cases "cache w (get_isochrone_key c x y seconds)")
  case None
  with assms show ?thesis
    by (cases "net c x y seconds") (auto simp: get_isochrone_def isochrones_def Let_def)
next
  case (Some u)
  with assms show ?thesis
    by (simp add: get_isochrone_def Let_def)
qed

lemma get_isochrone_keeps:
  assumes "get_isochrone net c x y seconds w = (r, w')"
  shows "cache w \<subseteq>\<^sub>m cache w'"
proof (cases "cache w (get_isochrone_key c x y seconds)")
  case None
  with assms show ?thesis
    by (cases "net c x y seconds") (auto simp: get_isochrone_def isochrones_def Let_def map_le_def)
next
  case (Some u)
  with assms show ?thesis
    by (simp add: get_isochrone_def Let_def)
qed

lemma get_isochrone_cache:
  assumes "get_isochrone net c x y secs w = (r, w')"
  shows "cache w' = cache w
       \<or> (\<exists>v. cache w' = (cache w)(get_isochrone_key c x y secs \<mapsto> v))"
proof (cases "cache w (get_isochrone_key c x y secs)")
  case (Some u)
  with assms show ?thesis by (simp add: get_isochrone_def Let_def)
next
  case None
  with assms show ?thesis
    by (cases "net c x y secs") (auto simp: get_isochrone_def isochrones_def Let_def)
qed

lemma get_isochrone_miss:
  "cache w (get_isochrone_key c x y secs) = None \<Longrightarrow>
     fst (get_isochrone net c x y secs w) = net c x y secs
     \<and> net_calls (snd (get_isochrone net c x y secs w))
         = net_calls w @ [((c, x, y, secs), net c x y secs)]"
  by (cases "net c x y secs") (simp_all add: get_isochrone_def isochrones_def Let_def)

text \<open>
  C1. The retrieval is cached on the exact triple (longitude, latitude, seconds), each
  argument taken as the Python value it is, type included. Once a call for a triple has
  returned a polygon, a repeated call for the same triple returns that polygon and leaves
  the world as it is, so it makes no request, whatever the provider would answer now. No
  call removes or alters an entry: the cache before any further call is contained in the
  cache after it. A later call for the same point with a different duration that returns a
  polygon stores it under a key of its own, and the old entry is still there beside it.
  The key is the triple and nothing less: two calls have the same key only when longitude,
  latitude and duration are all the same, and a call for any other triple that was not in
  the cache is not served from the entry: it goes to the provider and returns what the
  provider answers.
\<close>

theorem get_isochrone_cached_on_triple:
  assumes "get_isochrone net c x y secs w = (Inr v, w1)"
  shows "get_isochrone net' c' x y secs w1 = (Inr v, w1)
       \<and> cache w1 \<subseteq>\<^sub>m cache (snd (get_isochrone net2 c2 x2 y2 secs2 w1))
       \<and> (secs3 \<noteq> secs \<and> get_isochrone net3 c3 x y secs3 w1 = (Inr v3, w3) \<longrightarrow>
            cache w3 (get_isochrone_key c x y secs) = Some v \<and>
            cache w3 (get_isochrone_key c x y secs3) = Some v3 \<and>
            get_isochrone_key c x y secs \<noteq> get_isochrone_key c x y secs3)
       \<and> (get_isochrone_key c4 x4 y4 secs4 = get_isochrone_key c x y secs
            \<longleftrightarrow> x4 = x \<and> y4 = y \<and> secs4 = secs)
       \<and> ((x4, y4, secs4) \<noteq> (x, y, secs) \<and> cache w (get_isochrone_key c4 x4 y4 secs4) = None \<longrightarrow>
            fst (get_isochrone net4 c4 x4 y4 secs4 w1) = net4 c4 x4 y4 secs4 \<and>
            net_calls (snd (get_isochrone net4 c4 x4 y4 secs4 w1))
              = net_calls w1 @ [((c4, x4, y4, secs4), net4 c4 x4 y4 secs4)])"
proof (intro conjI impI)
  have stored: "cache w1 (get_isochrone_key c x y secs) = Some v"
    using assms by (rule get_isochrone_stores)
  then have "cache w1 (get_isochrone_key c' x y secs) = Some v"
    by (simp add: get_isochrone_key_eq)
  then show "get_isochrone net' c' x y secs w1 = (Inr v, w1)"
    by (rule get_isochrone_hit)
  show "cache w1 \<subseteq>\<^sub>m cache (snd (get_isochrone net2 c2 x2 y2 secs2 w1))"
    by (rule get_isochrone_keeps [where r = "fst (get_isochrone net2 c2 x2 y2 secs2 w1)"]) simp
  show "get_isochrone_key c4 x4 y4 secs4 = get_isochrone_key c x y secs
          \<longleftrightarrow> x4 = x \<and> y4 = y \<and> secs4 = secs"
    by (rule get_isochrone_key_inj)
  {
    assume later: "secs3 \<noteq> secs \<and> get_isochrone net3 c3 x y secs3 w1 = (Inr v3, w3)"
    then have "cache w1 \<subseteq>\<^sub>m cache w3"
      by (blast intro: get_isochrone_keeps)
    with stored show "cache w3 (get_isochrone_key c x y secs) = Some v"
      by (auto simp: map_le_def dom_def)
    from later have "cache w3 (get_isochrone_key c3 x y secs3) = Some v3"
      by (blast intro: get_isochrone_stores)
    then show "cache w3 (get_isochrone_key c x y secs3) = Some v3"
      by (simp add: get_isochrone_key_eq)
    from later show "get_isochrone_key c x y secs \<noteq> get_isochrone_key c x y secs3"
      by (simp add: get_isochrone_key_eq)
  }
  assume other: "(x4, y4, secs4) \<noteq> (x, y, secs) \<and> cache w (get_isochrone_key c4 x4 y4 secs4) = None"
  then have "get_isochrone_key c4 x4 y4 secs4 \<noteq> get_isochrone_key c x y secs"
    by (simp add: get_isochrone_key_inj)
  with get_isochrone_cache [OF assms] other
  have "cache w1 (get_isochrone_key c4 x4 y4 secs4) = None"
    by auto
  from get_isochrone_miss [OF this]
  show "fst (get_isochrone net4 c4 x4 y4 secs4 w1) = net4 c4 x4 y4 secs4"
    and "net_calls (snd (get_isochrone net4 c4 x4 y4 secs4 w1))
              = net_calls w1 @ [((c4, x4, y4, secs4), net4 c4 x4 y4 secs4)]"
    by blast+
qed

theorem get_isochrone_cached_on_triple_witness:
  "get_isochrone provider_up (Client ''key-A'') (PyInt (- 74)) (PyInt 40) 600 cold = (Inr ''polygon'', warm)
   \<and> get_isochrone provider_down (Client ''key-A'') (PyInt (- 74)) (PyInt 40) 600 warm = (Inr ''polygon'', warm)
   \<and> cache warm \<subseteq>\<^sub>m cache (snd (get_isochrone provider_up (Client ''key-A'') (PyInt 3) (PyInt 4) 60 warm))
   \<and> (1200::int) \<noteq> 600
   \<and> get_isochrone provider_up (Client ''key-A'') (PyInt (- 74)) (PyInt 40) 1200 warm
       = (Inr ''polygon'', snd (get_isochrone provider_up (Client ''key-A'') (PyInt (- 74)) (PyInt 40) 1200 warm))
   \<and> cache (snd (get_isochrone provider_up (Client ''key-A'') (PyInt (- 74)) (PyInt 40) 1200 warm))
        (get_isochrone_key (Client ''key-A'') (PyInt (- 74)) (PyInt 40) 600) = Some ''polygon''
   \<and> cache (snd (get_isochrone provider_up (Client ''key-A'') (PyInt (- 74)) (PyInt 40) 1200 warm))
        (get_isochrone_key (Client ''key-A'') (PyInt (- 74)) (PyInt 40) 1200) = Some ''polygon''
   \<and> (PyFloat (- 74), PyFloat 40, 600 :: int) \<noteq> (PyInt (- 74), PyInt 40, 600)
   \<and> cache cold (get_isochrone_key (Client ''key-A'') (PyFloat (- 74)) (PyFloat 40) 600) = None
   \<and> get_isochrone_key (Client ''key-A'') (PyFloat (- 74)) (PyFloat 40) 600
       \<noteq> get_isochrone_key (Client ''key-A'') (PyInt (- 74)) (PyInt 40) 600
   \<and> fst (get_isochrone provider_down (Client ''key-A'') (PyFloat (- 74)) (PyFloat 40) 600 warm)
       = Inl (ApiError ''quota exceeded'')
   \<and> net_calls (snd (get_isochrone provider_down (Client ''key-A'') (PyFloat (- 74)) (PyFloat 40) 600 warm))
       = net_calls warm
         @ [((Client ''key-A'', PyFloat (- 74), PyFloat 40, 600), Inl (ApiError ''quota exceeded''))]"
proof -
  have first: "get_isochrone provider_up (Client ''key-A'') (PyInt (- 74)) (PyInt 40) 600 cold = (Inr ''polygon'', warm)"
    by (simp add: get_isochrone_def isochrones_def Let_def cold_def warm_def provider_up_def)
  have later: "get_isochrone provider_up (Client ''key-A'') (PyInt (- 74)) (PyInt 40) 1200 warm
       = (Inr ''polygon'', snd (get_isochrone provider_up (Client ''key-A'') (PyInt (- 74)) (PyInt 40) 1200 warm))"
    by (simp add: get_isochrone_def isochrones_def Let_def warm_def provider_up_def get_isochrone_key_eq)
  have other: "(PyFloat (- 74), PyFloat 40, 600 :: int) \<noteq> (PyInt (- 74), PyInt 40, 600)"
    by simp
  have absent: "cache cold (get_isochrone_key (Client ''key-A'') (PyFloat (- 74)) (PyFloat 40) 600) = None"
    by (simp add: cold_def)
  have down: "provider_down (Client ''key-A'') (PyFloat (- 74)) (PyFloat 40) 600
      = Inl (ApiError ''quota exceeded'')"
    by (simp add: provider_down_def)
  show ?thesis
    using first later other absent down
      get_isochrone_cached_on_triple [OF first, where net' = provider_down and c' = "Client ''key-A''"
        and ?net2.0 = provider_up and ?c2.0 = "Client ''key-A''" and ?x2.0 = "PyInt 3"
        and ?y2.0 = "PyInt 4" and ?secs2.0 = 60 and ?secs3.0 = 1200 and ?net3.0 = provider_up
        and ?c3.0 = "Client ''key-A''" and ?v3.0 = "''polygon''"
        and ?w3.0 = "snd (get_isochrone provider_up (Client ''key-A'') (PyInt (- 74)) (PyInt 40) 1200 warm)"
        and ?c4.0 = "Client ''key-A''" and ?x4.0 = "PyFloat (- 74)" and ?y4.0 = "PyFloat 40"
        and ?secs4.0 = 600 and ?net4.0 = provider_down]
    by simp
qed

text \<open>
  C3, as the claim states it, does not hold: the client is the parameter
  \<^verbatim>\<open>_client\<close>, whose name starts with an underscore, so it is not part of the
  key. After a call with one credential has filled the cache, a call with another
  credential for the same point and duration is a hit: it returns the stored polygon and
  makes no request, even with the provider down.
\<close>

theorem cache_key_with_client_counterexample:
  "Client ''key-A'' \<noteq> Client ''key-B''
   \<and> get_isochrone provider_up (Client ''key-A'') (PyInt (- 74)) (PyInt 40) 600 cold = (Inr ''polygon'', warm)
   \<and> get_isochrone provider_down (Client ''key-B'') (PyInt (- 74)) (PyInt 40) 600 warm = (Inr ''polygon'', warm)
   \<and> get_isochrone_key (Client ''key-A'') (PyInt (- 74)) (PyInt 40) 600
       = get_isochrone_key (Client ''key-B'') (PyInt (- 74)) (PyInt 40) 600"
  by (simp add: get_isochrone_def isochrones_def Let_def cold_def warm_def provider_up_def
      get_isochrone_key_eq)

text \<open>
  C3, amended. The cache key of the retrieval leaves the client out: it is made of the
  longitude, the latitude and the duration, each with its parameter name. Two sessions
  with different credentials and the same point and duration therefore have the same key
  and share one entry: what one has stored, the other gets without a request.
\<close>

theorem cache_key_without_client:
  "get_isochrone_key c x y secs
     = [(''lon'', PNum x), (''lat'', PNum y), (''seconds'', PNum (PyInt secs))]
   \<and> get_isochrone_key c x y secs = get_isochrone_key c' x y secs
   \<and> (cache w (get_isochrone_key c x y secs) = Some v \<longrightarrow>
        get_isochrone net c' x y secs w = (Inr v, w))"
  by (simp add: get_isochrone_key_eq get_isochrone_def Let_def)

theorem cache_key_without_client_witness:
  "cache warm (get_isochrone_key (Client ''key-A'') (PyInt (- 74)) (PyInt 40) 600) = Some ''polygon''
   \<and> get_isochrone provider_down (Client ''key-B'') (PyInt (- 74)) (PyInt 40) 600 warm = (Inr ''polygon'', warm)"
proof -
  have stored: "cache warm (get_isochrone_key (Client ''key-A'') (PyInt (- 74)) (PyInt 40) 600) = Some ''polygon''"
    by (simp add: warm_def)
  with cache_key_without_client [of "Client ''key-A''" "PyInt (- 74)" "PyInt 40" 600 "Client ''key-B''" warm
      "''polygon''" provider_down]
  show ?thesis by blast
qed

section \<open>Halting before any retrieval\<close>

text \<open>
  C6. When no API key is stored in the session and none is entered in the key field, the
  pass stops with the configuration warning. The session is as the initialisation left
  it and the world is untouched: no client was built, no request was made, nothing was
  cached.
\<close>

theorem no_api_key_no_network:
  assumes "api_key (setdefaults sess) = []" and "text_input inp [] = []"
  shows "run net inp sess w = (Stopped (St_warning api_key_warning), setdefaults sess, w)"
  using assms by (simp add: run_def store_api_key_def Let_def)

theorem no_api_key_no_network_witness:
  "api_key (setdefaults None) = [] \<and> text_input untouched [] = []
   \<and> run provider_up untouched None warm = (Stopped (St_warning api_key_warning), new_session, warm)"
proof -
  have a: "api_key (setdefaults None) = []" by (simp add: setdefaults_def new_session_def)
  have b: "text_input untouched [] = []" by (simp add: untouched_def)
  from no_api_key_no_network [OF a b, of provider_up warm] a b show ?thesis
    by (simp add: setdefaults_def)
qed

lemma assert_columns_None: "assert_columns sheet req cols = None \<longleftrightarrow> set req \<subseteq> set cols"
  by (induction req) auto

lemma assert_columns_Some:
  "assert_columns sheet req cols = Some e \<Longrightarrow>
     \<exists>col. col \<in> set req \<and> col \<notin> set cols \<and>
       e = AssertionError (quoted sheet @ '' sheet must include '' @ quoted col @ '' column.'')"
  by (induction req) (auto split: if_splits)

lemma load_and_validate_missing:
  assumes "Companies xls = Some companies_df" and "Projects xls = Some projects_df"
    and "\<not> (set companies_required \<subseteq> set (columns companies_df)
            \<and> set projects_required \<subseteq> set (columns projects_df))"
  shows "\<exists>sheet col.
           (sheet = ''Companies'' \<and> col \<in> set companies_required \<and> col \<notin> set (columns companies_df)
            \<or> sheet = ''Projects'' \<and> col \<in> set projects_required \<and> col \<notin> set (columns projects_df))
           \<and> load_and_validate (Inr xls)
               = Inl (AssertionError (quoted sheet @ '' sheet must include '' @ quoted col @ '' column.''))"
proof (cases "assert_columns ''Companies'' companies_required (columns companies_df)")
  case (Some e)
  from assert_columns_Some [OF Some] obtain col where
    "col \<in> set companies_required" "col \<notin> set (columns companies_df)"
    "e = AssertionError (quoted ''Companies'' @ '' sheet must include '' @ quoted col @ '' column.'')"
    by blast
  with Some assms(1,2) show ?thesis
    by (auto simp: load_and_validate_def read_excel_def)
next
  case None
  then have "set companies_required \<subseteq> set (columns companies_df)"
    by (simp add: assert_columns_None)
  with assms(3) have "assert_columns ''Projects'' projects_required (columns projects_df) \<noteq> None"
    by (simp add: assert_columns_None)
  then obtain e where e: "assert_columns ''Projects'' projects_required (columns projects_df) = Some e"
    by blast
  from assert_columns_Some [OF e] obtain col where
    "col \<in> set projects_required" "col \<notin> set (columns projects_df)"
    "e = AssertionError (quoted ''Projects'' @ '' sheet must include '' @ quoted col @ '' column.'')"
    by blast
  with None e assms(1,2) show ?thesis
    by (auto simp: load_and_validate_def read_excel_def)
qed

lemma load_error_assertion:
  "load_error (AssertionError (quoted sheet @ '' sheet must include '' @ quoted col @ '' column.''))
     = [CHR 0xE2, CHR 0x9D, CHR 0x8C] @ '' Error loading data: '' @ [CHR 0x27] @ sheet @ [CHR 0x27]
       @ '' sheet must include '' @ [CHR 0x27] @ col @ [CHR 0x27] @ '' column.''"
  by (simp add: load_error_def quoted_def)

text \<open>
  C5. With a key present and a workbook that has both sheets, if a required column is
  missing from \<^verbatim>\<open>Companies\<close> or from \<^verbatim>\<open>Projects\<close>, the pass stops with
  an error notice whose text is, byte for byte, the cross mark, \<^verbatim>\<open>Error loading data:\<close>
  and the assertion's message, which names in quotes the sheet and a required column that
  is missing from it: the missing column when only one is missing. The world is untouched:
  no retrieval was made and nothing was drawn.
\<close>

theorem missing_column_halts:
  assumes key: "api_key (store_api_key inp (setdefaults sess)) \<noteq> []"
    and upload: "uploaded_file inp = Some (Inr xls)"
    and sheets: "Companies xls = Some companies_df" "Projects xls = Some projects_df"
    and missing: "\<not> (set companies_required \<subseteq> set (columns companies_df)
                     \<and> set projects_required \<subseteq> set (columns projects_df))"
  shows "\<exists>sheet col.
           (sheet = ''Companies''
              \<and> col \<in> {''Company Location'', ''Latitude'', ''Longitude'', ''Company Name''}
              \<and> col \<notin> set (columns companies_df)
            \<or> sheet = ''Projects''
              \<and> col \<in> {''Project Name'', ''Latitude'', ''Longitude''}
              \<and> col \<notin> set (columns projects_df))
           \<and> run net inp sess w
               = (Stopped (St_error
                    ([CHR 0xE2, CHR 0x9D, CHR 0x8C] @ '' Error loading data: ''
                     @ [CHR 0x27] @ sheet @ [CHR 0x27] @ '' sheet must include ''
                     @ [CHR 0x27] @ col @ [CHR 0x27] @ '' column.'')),
                  store_api_key inp (setdefaults sess), w)"
proof -
  from load_and_validate_missing [OF sheets missing] obtain sheet col where
    which: "sheet = ''Companies'' \<and> col \<in> set companies_required \<and> col \<notin> set (columns companies_df)
            \<or> sheet = ''Projects'' \<and> col \<in> set projects_required \<and> col \<notin> set (columns projects_df)"
    and load: "load_and_validate (Inr xls)
               = Inl (AssertionError (quoted sheet @ '' sheet must include '' @ quoted col @ '' column.''))"
    by blast
  from key upload load have "run net inp sess w
      = (Stopped (St_error (load_error (AssertionError
            (quoted sheet @ '' sheet must include '' @ quoted col @ '' column.'')))),
         store_api_key inp (setdefaults sess), w)"
    by (simp add: run_def Let_def)
  then have "run net inp sess w
               = (Stopped (St_error
                    ([CHR 0xE2, CHR 0x9D, CHR 0x8C] @ '' Error loading data: ''
                     @ [CHR 0x27] @ sheet @ [CHR 0x27] @ '' sheet must include ''
                     @ [CHR 0x27] @ col @ [CHR 0x27] @ '' column.'')),
                  store_api_key inp (setdefaults sess), w)"
    by (simp only: load_error_assertion)
  moreover from which
  have "sheet = ''Companies''
              \<and> col \<in> {''Company Location'', ''Latitude'', ''Longitude'', ''Company Name''}
              \<and> col \<notin> set (columns companies_df)
            \<or> sheet = ''Projects''
              \<and> col \<in> {''Project Name'', ''Latitude'', ''Longitude''}
              \<and> col \<notin> set (columns projects_df)"
    by (simp add: companies_required_def projects_required_def)
  ultimately show ?thesis by (intro exI conjI)
qed

theorem missing_column_halts_witness:
  "api_key (store_api_key no_latitude_upload (setdefaults None)) = ''secret''
   \<and> uploaded_file no_latitude_upload = Some (Inr no_latitude_workbook)
   \<and> Companies no_latitude_workbook = Some no_latitude_companies
   \<and> Projects no_latitude_workbook = Some one_project
   \<and> columns no_latitude_companies = [''Company Location'', ''Longitude'', ''Company Name'']
   \<and> columns one_project = [''Project Name'', ''Latitude'', ''Longitude'']
   \<and> run provider_up no_latitude_upload None cold
       = (Stopped (St_error
            ([CHR 0xE2, CHR 0x9D, CHR 0x8C]
             @ '' Error loading data: 'Companies' sheet must include 'Latitude' column.'')),
          new_session\<lparr>api_key := ''secret''\<rparr>, cold)"
proof -
  have stored: "store_api_key no_latitude_upload (setdefaults None) = new_session\<lparr>api_key := ''secret''\<rparr>"
    by (simp add: store_api_key_def setdefaults_def no_latitude_upload_def with_key_def untouched_def)
  have key: "api_key (store_api_key no_latitude_upload (setdefaults None)) \<noteq> []"
    by (simp add: stored)
  have upload: "uploaded_file no_latitude_upload = Some (Inr no_latitude_workbook)"
    by (simp add: no_latitude_upload_def)
  have sheets: "Companies no_latitude_workbook = Some no_latitude_companies"
    "Projects no_latitude_workbook = Some one_project"
    by (simp_all add: no_latitude_workbook_def)
  have cols: "columns no_latitude_companies = [''Company Location'', ''Longitude'', ''Company Name'']"
    "columns one_project = [''Project Name'', ''Latitude'', ''Longitude'']"
    by (simp_all add: no_latitude_companies_def one_project_def)
  have missing: "\<not> (set companies_required \<subseteq> set (columns no_latitude_companies)
          \<and> set projects_required \<subseteq> set (columns one_project))"
    by (simp add: companies_required_def cols)
  have only: "sheet = ''Companies'' \<and> col = ''Latitude''"
    if "sheet = ''Companies''
              \<and> col \<in> {''Company Location'', ''Latitude'', ''Longitude'', ''Company Name''}
              \<and> col \<notin> set (columns no_latitude_companies)
            \<or> sheet = ''Projects''
              \<and> col \<in> {''Project Name'', ''Latitude'', ''Longitude''}
              \<and> col \<notin> set (columns one_project)"
    for sheet col
    using that by (auto simp: cols)
  from missing_column_halts [OF key upload sheets missing, of provider_up cold]
  obtain sheet col where
    which: "sheet = ''Companies''
              \<and> col \<in> {''Company Location'', ''Latitude'', ''Longitude'', ''Company Name''}
              \<and> col \<notin> set (columns no_latitude_companies)
            \<or> sheet = ''Projects''
              \<and> col \<in> {''Project Name'', ''Latitude'', ''Longitude''}
              \<and> col \<notin> set (columns one_project)"
    and stopped: "run provider_up no_latitude_upload None cold
       = (Stopped (St_error
            ([CHR 0xE2, CHR 0x9D, CHR 0x8C] @ '' Error loading data: ''
             @ [CHR 0x27] @ sheet @ [CHR 0x27] @ '' sheet must include ''
             @ [CHR 0x27] @ col @ [CHR 0x27] @ '' column.'')),
          store_api_key no_latitude_upload (setdefaults None), cold)"
    by (elim exE conjE)
  from only [OF which] have "sheet = ''Companies''" and "col = ''Latitude''"
    by (rule conjunct1, rule conjunct2)
  with stopped have "run provider_up no_latitude_upload None cold
       = (Stopped (St_error
            ([CHR 0xE2, CHR 0x9D, CHR 0x8C] @ '' Error loading data: ''
             @ [CHR 0x27] @ ''Companies'' @ [CHR 0x27] @ '' sheet must include ''
             @ [CHR 0x27] @ ''Latitude'' @ [CHR 0x27] @ '' column.'')),
          store_api_key no_latitude_upload (setdefaults None), cold)"
    by (simp only:)
  then have "run provider_up no_latitude_upload None cold
       = (Stopped (St_error
            ([CHR 0xE2, CHR 0x9D, CHR 0x8C]
             @ '' Error loading data: 'Companies' sheet must include 'Latitude' column.'')),
          new_session\<lparr>api_key := ''secret''\<rparr>, cold)"
    by (simp add: stored)
  with stored upload sheets cols show ?thesis by simp
qed

section \<open>The project-site store\<close>

lemma init_competitors_project_sites [simp]:
  "project_sites (init_competitors companies s) = project_sites s"
  by (induction companies arbitrary: s) simp_all

lemma store_api_key_project_sites [simp]:
  "project_sites (store_api_key inp s) = project_sites s"
  by (simp add: store_api_key_def Let_def)

lemma render_session:
  "fst (snd (render net inp c secs companies_df projects_df s w))
     = project_checkboxes (checkbox inp) (init_competitors (rows companies_df)
         (init_project_sites (rows projects_df) s))"
  by (simp add: render_def Let_def split: sum.splits prod.splits option.splits)

lemma render_project_sites:
  "project_sites (fst (snd (render net inp c secs companies_df projects_df s w)))
     = project_sites (project_checkboxes (checkbox inp) (init_project_sites (rows projects_df) s))"
  by (simp add: render_session project_checkboxes_def)

lemma run_project_sites:
  "project_sites (fst (snd (run net inp sess w))) = project_sites (setdefaults sess)
   \<or> (\<exists>projects_df :: project_row dataframe. project_sites (fst (snd (run net inp sess w)))
         = project_sites (project_checkboxes (checkbox inp)
             (init_project_sites (rows projects_df) (store_api_key inp (setdefaults sess)))))"
proof (cases "api_key (store_api_key inp (setdefaults sess)) = []")
  case True
  then show ?thesis by (simp add: run_def Let_def)
next
  case key: False
  show ?thesis
  proof (cases "uploaded_file inp")
    case None
    with key show ?thesis by (simp add: run_def Let_def)
  next
    case (Some upload)
    show ?thesis
    proof (cases "load_and_validate upload")
      case (Inl e)
      with key Some show ?thesis by (simp add: run_def Let_def)
    next
      case (Inr dfs)
      obtain companies_df projects_df where "dfs = (companies_df, projects_df)"
        by (cases dfs)
      with key Some Inr have "project_sites (fst (snd (run net inp sess w)))
         = project_sites (project_checkboxes (checkbox inp)
             (init_project_sites (rows projects_df) (store_api_key inp (setdefaults sess))))"
        by (simp add: run_def Let_def render_project_sites)
      then show ?thesis by blast
    qed
  qed
qed

lemma project_checkboxes_names_and_coordinates:
  "map (\<lambda>(pname, pdata). (pname, lat pdata, lon pdata)) (project_sites (project_checkboxes cb s))
     = map (\<lambda>(pname, pdata). (pname, lat pdata, lon pdata)) (project_sites s)"
  by (simp add: project_checkboxes_def case_prod_unfold)

lemma project_checkboxes_idle:
  "\<forall>label d. cb label d = d \<Longrightarrow> project_sites (project_checkboxes cb s) = project_sites s"
  by (simp add: project_checkboxes_def case_prod_unfold)

lemma init_project_sites_present:
  "project_sites s \<noteq> [] \<Longrightarrow> init_project_sites projects s = s"
  by (simp add: init_project_sites_def)

text \<open>
  C10. Project sites are taken from the uploaded file only when the session's store of
  project sites is empty. With a store that is not empty, the initialisation step leaves
  the session exactly as it is, whatever the project rows of the file. Over a whole pass
  from such a session, whatever is uploaded, the stored names and coordinates are the same
  afterwards, in the same order; and with the checkboxes left alone the store, flags
  included, is the same.
\<close>

theorem project_sites_kept_when_present:
  assumes "project_sites s \<noteq> []"
  shows "init_project_sites projects s = s
       \<and> map (\<lambda>(pname, pdata). (pname, lat pdata, lon pdata))
             (project_sites (fst (snd (run net inp (Some s) w))))
           = map (\<lambda>(pname, pdata). (pname, lat pdata, lon pdata)) (project_sites s)
       \<and> ((\<forall>label d. checkbox inp label d = d) \<longrightarrow>
             project_sites (fst (snd (run net inp (Some s) w))) = project_sites s)"
proof -
  let ?s' = "fst (snd (run net inp (Some s) w))"
  from assms have "project_sites (store_api_key inp s) \<noteq> []" by simp
  then have kept: "init_project_sites projects' (store_api_key inp s) = store_api_key inp s"
    for projects'
    by (rule init_project_sites_present)
  have "project_sites (project_checkboxes (checkbox inp) (store_api_key inp s))
          = project_sites (project_checkboxes (checkbox inp) s)"
    by (simp add: project_checkboxes_def)
  with run_project_sites [of net inp "Some s" w] kept
  have after: "project_sites ?s' = project_sites s
      \<or> project_sites ?s' = project_sites (project_checkboxes (checkbox inp) s)"
    by (auto simp: setdefaults_def)
  from after have "map (\<lambda>(pname, pdata). (pname, lat pdata, lon pdata)) (project_sites ?s')
           = map (\<lambda>(pname, pdata). (pname, lat pdata, lon pdata)) (project_sites s)"
  proof
    assume "project_sites ?s' = project_sites s"
    then show ?thesis by simp
  next
    assume "project_sites ?s' = project_sites (project_checkboxes (checkbox inp) s)"
    then show ?thesis by (simp only: project_checkboxes_names_and_coordinates)
  qed
  moreover have "project_sites ?s' = project_sites s" if "\<forall>label d. checkbox inp label d = d"
    using after project_checkboxes_idle [OF that, of s] by auto
  moreover from assms have "init_project_sites projects s = s"
    by (rule init_project_sites_present)
  ultimately show ?thesis by blast
qed


theorem project_sites_kept_when_present_witness:
  "project_sites one_site_session \<noteq> []
   \<and> (\<forall>label d. checkbox other_upload label d = d)
   \<and> init_project_sites (rows other_projects) one_site_session = one_site_session
   \<and> project_sites (fst (snd (run provider_up other_upload (Some one_site_session) cold)))
       = [(''Site 1'', \<lparr>lat = PyInt 40, lon = PyInt (- 74), visible = True\<rparr>)]"
proof -
  have present: "project_sites one_site_session \<noteq> []"
    by (simp add: one_site_session_def)
  have idle: "\<forall>label d. checkbox other_upload label d = d"
    by (simp add: other_upload_def untouched_def)
  have stored: "project_sites one_site_session = [(''Site 1'', \<lparr>lat = PyInt 40, lon = PyInt (- 74), visible = True\<rparr>)]"
    by (simp add: one_site_session_def)
  from project_sites_kept_when_present [OF present, of "rows other_projects" provider_up other_upload cold]
    idle
  have "init_project_sites (rows other_projects) one_site_session = one_site_session"
    and "project_sites (fst (snd (run provider_up other_upload (Some one_site_session) cold)))
       = project_sites one_site_session"
    by blast+
  with present idle stored show ?thesis by simp
qed

section \<open>Colour assignment\<close>

lemma unseen_set: "set (unseen S xs) = set xs - S"
  by (induction xs arbitrary: S) auto

lemma unseen_distinct: "distinct (unseen S xs)"
  by (induction xs arbitrary: S) (auto simp: unseen_set)

lemma unique_distinct: "distinct (unique xs)"
  by (simp add: unique_def unseen_distinct)

lemma unique_set: "set (unique xs) = set xs"
  by (simp add: unique_def unseen_set)

lemma dict_setitem_new: "k \<notin> fst ` set d \<Longrightarrow> dict_setitem d k v = d @ [(k, v)]"
  by (induction d) auto

lemma dict_comprehension:
  "distinct (map snd ps) \<Longrightarrow> snd ` set ps \<inter> fst ` set d = {} \<Longrightarrow>
     foldl (\<lambda>d (i, name). dict_setitem d name (f i)) d ps = d @ map (\<lambda>(i, name). (name, f i)) ps"
proof (induction ps arbitrary: d)
  case Nil
  then show ?case by simp
next
  case (Cons p ps)
  obtain i name where p: "p = (i, name)" by (cases p)
  from Cons.prems p have new: "name \<notin> fst ` set d" by auto
  have "snd ` set ps \<inter> fst ` set (d @ [(name, f i)]) = {}"
    using Cons.prems p by (auto simp: image_iff)
  with Cons.IH [of "d @ [(name, f i)]"] Cons.prems p new show ?case
    by (simp add: dict_setitem_new)
qed

lemma company_colors_eq:
  "company_colors colormap names
     = map (\<lambda>(i, name). (name, colormap ! (i mod length colormap))) (enumerate 0 (unique names))"
  unfolding company_colors_def
  using dict_comprehension [of "enumerate 0 (unique names)" "[]" "\<lambda>i. colormap ! (i mod length colormap)"]
  by (simp add: unique_distinct)

lemma company_colors_keys: "map fst (company_colors colormap names) = unique names"
  by (simp add: company_colors_eq case_prod_unfold comp_def)


lemma company_colors_lookup:
  assumes "i < length (unique names)"
  shows "map_of (company_colors colormap names) (unique names ! i)
           = Some (colormap ! (i mod length colormap))"
proof -
  have "distinct (map fst (company_colors colormap names))"
    by (simp add: company_colors_keys unique_distinct)
  moreover have "(i, unique names ! i) \<in> set (enumerate 0 (unique names))"
    using assms by (simp add: in_set_enumerate_eq)
  then have "(unique names ! i, colormap ! (i mod length colormap))
               \<in> set (company_colors colormap names)"
    by (force simp: company_colors_eq)
  ultimately show ?thesis by simp
qed

text \<open>
  C7. The colour dict is a function of the list of unique group names, in their order of
  first appearance: its keys are that list, and the i-th name has palette colour i modulo
  the palette size. The index is always inside the palette, so more groups than colours
  is no failure: the group a palette size further on has the same colour. Two loads with
  the same list of unique names have the same dict.
\<close>

theorem company_colors_by_enumeration_order:
  assumes "colormap \<noteq> []" and "i < length (unique names)"
  shows "map fst (company_colors colormap names) = unique names
       \<and> map_of (company_colors colormap names) (unique names ! i)
           = Some (colormap ! (i mod length colormap))
       \<and> i mod length colormap < length colormap
       \<and> (i + length colormap < length (unique names) \<longrightarrow>
            map_of (company_colors colormap names) (unique names ! (i + length colormap))
              = map_of (company_colors colormap names) (unique names ! i))
       \<and> (unique names' = unique names \<longrightarrow>
            company_colors colormap names' = company_colors colormap names)"
proof -
  have "map_of (company_colors colormap names) (unique names ! (i + length colormap))
          = map_of (company_colors colormap names) (unique names ! i)"
    if "i + length colormap < length (unique names)"
    using that assms(2) by (simp add: company_colors_lookup)
  moreover have "company_colors colormap names' = company_colors colormap names"
    if "unique names' = unique names"
    using that by (simp add: company_colors_def)
  ultimately show ?thesis
    using assms by (simp add: company_colors_keys company_colors_lookup)
qed

theorem company_colors_by_enumeration_order_witness:
  "[''red'', ''blue''] \<noteq> []
   \<and> 0 < length (unique [''Acme'', ''Bolt'', ''Acme'', ''Core''])
   \<and> 0 + length [''red'', ''blue''] < length (unique [''Acme'', ''Bolt'', ''Acme'', ''Core''])
   \<and> unique [''Acme'', ''Bolt'', ''Core''] = unique [''Acme'', ''Bolt'', ''Acme'', ''Core'']
   \<and> map fst (company_colors [''red'', ''blue''] [''Acme'', ''Bolt'', ''Acme'', ''Core''])
       = [''Acme'', ''Bolt'', ''Core'']
   \<and> map_of (company_colors [''red'', ''blue''] [''Acme'', ''Bolt'', ''Acme'', ''Core'']) ''Acme''
       = Some ''red''
   \<and> map_of (company_colors [''red'', ''blue''] [''Acme'', ''Bolt'', ''Acme'', ''Core'']) ''Core''
       = Some ''red''
   \<and> company_colors [''red'', ''blue''] [''Acme'', ''Bolt'', ''Core'']
       = company_colors [''red'', ''blue''] [''Acme'', ''Bolt'', ''Acme'', ''Core'']"
proof -
  have u: "unique [''Acme'', ''Bolt'', ''Acme'', ''Core''] = [''Acme'', ''Bolt'', ''Core'']"
    by (simp add: unique_def)
  have u': "unique [''Acme'', ''Bolt'', ''Core''] = [''Acme'', ''Bolt'', ''Core'']"
    by (simp add: unique_def)
  have palette: "[''red'', ''blue''] \<noteq> ([] :: string list)" by simp
  have first: "0 < length (unique [''Acme'', ''Bolt'', ''Acme'', ''Core''])"
    by (simp add: u)
  from company_colors_by_enumeration_order [OF palette first, of "[''Acme'', ''Bolt'', ''Core'']"]
  show ?thesis by (simp add: u u')
qed

section \<open>What the drawing loops do to the world\<close>

text \<open>
  A call of the cached retrieval, a loop and a whole pass only ever add to the cache and to
  the log. The lemmas below say, for each of them, what is added: the requests made, of
  which a failed one ends the pass with its exception, and the seconds slept, one for each
  entry drawn.
\<close>

lemma get_isochrone_effects:
  assumes "get_isochrone net c x y secs w = (r, w')"
  shows "cache w \<subseteq>\<^sub>m cache w' \<and> sleeps w' = sleeps w
       \<and> (\<exists>new. net_calls w' = net_calls w @ new \<and> (\<forall>call\<in>set new. snd call = r)
             \<and> succeeded new \<le> (if isl r then 0 else 1))
       \<and> (isl r \<longrightarrow> cache w' = cache w)"
proof (cases "cache w (get_isochrone_key c x y secs)")
  case (Some u)
  with assms have "w' = w" "r = Inr u"
    by (auto simp: get_isochrone_def Let_def)
  then show ?thesis by (simp add: succeeded_def)
next
  case None
  show ?thesis
  proof (cases "net c x y secs")
    case (Inl e)
    have "(r, w') = (Inl e, w\<lparr>net_calls := net_calls w @ [((c, x, y, secs), Inl e)]\<rparr>)"
      unfolding assms [symmetric] using None Inl by (rule get_isochrone_miss_fail)
    then have "r = Inl e"
      and "w' = w\<lparr>net_calls := net_calls w @ [((c, x, y, secs), Inl e)]\<rparr>"
      by simp_all
    then show ?thesis
      by (simp add: succeeded_def)
  next
    case (Inr v)
    have "(r, w') = (Inr v, w\<lparr>net_calls := net_calls w @ [((c, x, y, secs), Inr v)],
                    cache := (cache w)(get_isochrone_key c x y secs \<mapsto> v)\<rparr>)"
      unfolding assms [symmetric] using None Inr by (rule get_isochrone_miss_ok)
    then have "r = Inr v"
      and "w' = w\<lparr>net_calls := net_calls w @ [((c, x, y, secs), Inr v)],
                    cache := (cache w)(get_isochrone_key c x y secs \<mapsto> v)\<rparr>"
      by simp_all
    with None show ?thesis
      by (auto simp: succeeded_def map_le_def)
  qed
qed

lemma project_isochrones_effects:
  "project_isochrones net c secs sites m w = (r, m', w') \<Longrightarrow>
     cache w \<subseteq>\<^sub>m cache w'
     \<and> (\<exists>new k. net_calls w' = net_calls w @ new
           \<and> (\<forall>call\<in>set new. \<forall>e. snd call = Inl e \<longrightarrow> r = Some e)
           \<and> sleeps w' = sleeps w + k \<and> succeeded new \<le> k
           \<and> length (layers m') = length (layers m) + 2 * k
           \<and> (r = None \<longrightarrow> k = length (project_points sites)))"
proof (induction sites arbitrary: m w)
  case Nil
  then show ?case by (simp add: succeeded_def project_points_def)
next
  case (Cons site sites)
  obtain pname pdata where site: "site = (pname, pdata)" by (cases site)
  show ?case
  proof (cases "visible pdata")
    case False
    with Cons.prems site have "project_isochrones net c secs sites m w = (r, m', w')"
      by simp
    from Cons.IH [OF this] False site show ?thesis
      by (simp add: project_points_def)
  next
    case True
    obtain r1 w1 where call: "get_isochrone net c (lon pdata) (lat pdata) secs w = (r1, w1)"
      by (cases "get_isochrone net c (lon pdata) (lat pdata) secs w")
    from get_isochrone_effects [OF call] obtain new1 where
      le1: "cache w \<subseteq>\<^sub>m cache w1" and sl1: "sleeps w1 = sleeps w"
      and log1: "net_calls w1 = net_calls w @ new1" and res1: "\<forall>call\<in>set new1. snd call = r1"
      and suc1: "succeeded new1 \<le> (if isl r1 then 0 else 1)"
      by blast
    show ?thesis
    proof (cases r1)
      case (Inl e)
      with Cons.prems site True call have "r = Some e" "m' = m" "w' = w1"
        by simp_all
      with le1 sl1 log1 res1 suc1 Inl show ?thesis
        by auto
    next
      case (Inr polygon)
      let ?m = "add_to (Marker (lat pdata, lon pdata) pname ''red'') (add_to (GeoJson polygon ''#ff0000'') m)"
      from Cons.prems site True call Inr
      have rest: "project_isochrones net c secs sites ?m (sleep 1 w1) = (r, m', w')"
        by simp
      from Cons.IH [OF rest] obtain new k where
        le: "cache (sleep 1 w1) \<subseteq>\<^sub>m cache w'"
        and log: "net_calls w' = net_calls (sleep 1 w1) @ new"
        and res: "\<forall>call\<in>set new. \<forall>e. snd call = Inl e \<longrightarrow> r = Some e"
        and sl: "sleeps w' = sleeps (sleep 1 w1) + k" and suc: "succeeded new \<le> k"
        and lay: "length (layers m') = length (layers ?m) + 2 * k"
        and all: "r = None \<longrightarrow> k = length (project_points sites)"
        by blast
      have "cache w \<subseteq>\<^sub>m cache w'"
        using le1 le by (auto simp: sleep_def intro: map_le_trans)
      moreover have "net_calls w' = net_calls w @ (new1 @ new)"
        using log1 log by (simp add: sleep_def)
      moreover have "\<forall>call\<in>set (new1 @ new). \<forall>e. snd call = Inl e \<longrightarrow> r = Some e"
        using res1 res Inr by auto
      moreover have "sleeps w' = sleeps w + Suc k"
        using sl sl1 by (simp add: sleep_def)
      moreover have "succeeded (new1 @ new) \<le> Suc k"
        using suc1 suc Inr by (simp add: succeeded_def)
      moreover have "length (layers m') = length (layers m) + 2 * Suc k"
        using lay by (simp add: add_to_def)
      moreover have "r = None \<longrightarrow> Suc k = length (project_points (site # sites))"
        using all site True by (simp add: project_points_def)
      ultimately show ?thesis by blast
    qed
  qed
qed


lemma competitor_isochrones_effects:
  "competitor_isochrones net c secs vis colors companies m w = (r, m', w') \<Longrightarrow>
   \<forall>row\<in>set companies. map_of colors (Company_Name row) \<noteq> None \<Longrightarrow>
     cache w \<subseteq>\<^sub>m cache w'
     \<and> (\<exists>new k. net_calls w' = net_calls w @ new
           \<and> (\<forall>call\<in>set new. \<forall>e. snd call = Inl e \<longrightarrow> r = Some e)
           \<and> sleeps w' = sleeps w + k \<and> succeeded new \<le> k
           \<and> length (layers m') = length (layers m) + 2 * k
           \<and> (r = None \<longrightarrow>
                k = length (filter (\<lambda>row. vis (Company_Location row) = Some True) companies)))"
proof (induction companies arbitrary: m w)
  case Nil
  then show ?case by (simp add: succeeded_def)
next
  case (Cons row companies)
  show ?case
  proof (cases "vis (Company_Location row)")
    case None
    with Cons.prems(1) show ?thesis by (auto simp: succeeded_def)
  next
    case (Some shown)
    show ?thesis
    proof (cases shown)
      case False
      with Cons.prems(1) Some
      have "competitor_isochrones net c secs vis colors companies m w = (r, m', w')"
        by simp
      from Cons.IH [OF this] Cons.prems(2) False Some show ?thesis
        by simp
    next
      case True
      obtain r1 w1 where call: "get_isochrone net c (Longitude row) (Latitude row) secs w = (r1, w1)"
        by (cases "get_isochrone net c (Longitude row) (Latitude row) secs w")
      from get_isochrone_effects [OF call] obtain new1 where
        le1: "cache w \<subseteq>\<^sub>m cache w1" and sl1: "sleeps w1 = sleeps w"
        and log1: "net_calls w1 = net_calls w @ new1" and res1: "\<forall>call\<in>set new1. snd call = r1"
        and suc1: "succeeded new1 \<le> (if isl r1 then 0 else 1)"
        by blast
      show ?thesis
      proof (cases r1)
        case (Inl e)
        with Cons.prems(1) Some True call have "r = Some e" "m' = m" "w' = w1"
          by simp_all
        with le1 sl1 log1 res1 suc1 Inl show ?thesis
          by auto
      next
        case (Inr polygon)
        show ?thesis
        proof (cases "map_of colors (Company_Name row)")
          case None
          with Cons.prems(2) show ?thesis by simp
        next
          case (Some color)
          let ?m = "add_to (Marker (Latitude row, Longitude row) (Company_Location row) color)
                      (add_to (GeoJson polygon color) m)"
          from Cons.prems(1) \<open>vis (Company_Location row) = Some shown\<close> True call Inr Some
          have rest: "competitor_isochrones net c secs vis colors companies ?m (sleep 1 w1) = (r, m', w')"
            by simp
          from Cons.prems(2) have "\<forall>row\<in>set companies. map_of colors (Company_Name row) \<noteq> None"
            by simp
          from Cons.IH [OF rest this] obtain new k where
            le: "cache (sleep 1 w1) \<subseteq>\<^sub>m cache w'"
            and log: "net_calls w' = net_calls (sleep 1 w1) @ new"
            and res: "\<forall>call\<in>set new. \<forall>e. snd call = Inl e \<longrightarrow> r = Some e"
            and sl: "sleeps w' = sleeps (sleep 1 w1) + k" and suc: "succeeded new \<le> k"
            and lay: "length (layers m') = length (layers ?m) + 2 * k"
            and all: "r = None \<longrightarrow>
                k = length (filter (\<lambda>row. vis (Company_Location row) = Some True) companies)"
            by blast
          have "cache w \<subseteq>\<^sub>m cache w'"
            using le1 le by (auto simp: sleep_def intro: map_le_trans)
          moreover have "net_calls w' = net_calls w @ (new1 @ new)"
            using log1 log by (simp add: sleep_def)
          moreover have "\<forall>call\<in>set (new1 @ new). \<forall>e. snd call = Inl e \<longrightarrow> r = Some e"
            using res1 res Inr by auto
          moreover have "sleeps w' = sleeps w + Suc k"
            using sl sl1 by (simp add: sleep_def)
          moreover have "succeeded (new1 @ new) \<le> Suc k"
            using suc1 suc Inr by (simp add: succeeded_def)
          moreover have "length (layers m') = length (layers m) + 2 * Suc k"
            using lay by (simp add: add_to_def)
          moreover have "r = None \<longrightarrow>
              Suc k = length (filter (\<lambda>row. vis (Company_Location row) = Some True) (row # companies))"
            using all \<open>vis (Company_Location row) = Some shown\<close> True by simp
          ultimately show ?thesis by blast
        qed
      qed
    qed
  qed
qed


lemma company_colors_has_all:
  "name \<in> set names \<Longrightarrow> map_of (company_colors colormap names) name \<noteq> None"
proof -
  assume "name \<in> set names"
  then have "name \<in> set (map fst (company_colors colormap names))"
    by (simp only: company_colors_keys unique_set)
  then show ?thesis
    by (simp add: map_of_eq_None_iff)
qed

lemma folium_Map_layers: "folium_Map a b = Inr m \<Longrightarrow> layers m = []"
  by (auto simp: folium_Map_def split: option.splits)

lemma render_effects:
  assumes "render net inp c secs companies_df projects_df s w = (out, s', w')"
  shows "cache w \<subseteq>\<^sub>m cache w'
     \<and> (\<exists>new k. net_calls w' = net_calls w @ new
           \<and> (\<forall>call\<in>set new. \<forall>e. snd call = Inl e \<longrightarrow> out = Raised e)
           \<and> sleeps w' = sleeps w + k \<and> succeeded new \<le> k
           \<and> (\<forall>m legend. out = Rendered m legend \<longrightarrow>
                 length (layers m) = 2 * k
                 \<and> k = length (project_points (project_sites s'))
                       + length (filter (\<lambda>row. competitor_visibility s' (Company_Location row) = Some True)
                           (rows companies_df))))"
proof -
  define s3 where "s3 = project_checkboxes (checkbox inp) (init_competitors (rows companies_df)
         (init_project_sites (rows projects_df) s))"
  define colors where "colors = company_colors tab20 (map Company_Name (rows companies_df))"
  have s': "s' = s3"
    using render_session [of net inp c secs companies_df projects_df s w] assms
    by (simp add: s3_def)
  have colors: "\<forall>row\<in>set (rows companies_df). map_of colors (Company_Name row) \<noteq> None"
    by (simp add: colors_def company_colors_has_all)
  show ?thesis
  proof (cases "folium_Map (mean (map Latitude (rows companies_df)))
                  (mean (map Longitude (rows companies_df)))")
    case (Inl e)
    with assms have "out = Raised e" "w' = w"
      by (simp_all add: render_def Let_def)
    then show ?thesis by (simp add: succeeded_def)
  next
    case (Inr m0)
    then have empty: "layers m0 = []" by (rule folium_Map_layers)
    obtain r1 m1 w1 where loop1: "project_isochrones net c secs (project_sites s3) m0 w = (r1, m1, w1)"
      by (cases "project_isochrones net c secs (project_sites s3) m0 w")
    from project_isochrones_effects [OF loop1] obtain new1 k1 where
      le1: "cache w \<subseteq>\<^sub>m cache w1" and log1: "net_calls w1 = net_calls w @ new1"
      and res1: "\<forall>call\<in>set new1. \<forall>e. snd call = Inl e \<longrightarrow> r1 = Some e"
      and sl1: "sleeps w1 = sleeps w + k1" and suc1: "succeeded new1 \<le> k1"
      and lay1: "length (layers m1) = length (layers m0) + 2 * k1"
      and all1: "r1 = None \<longrightarrow> k1 = length (project_points (project_sites s3))"
      by blast
    show ?thesis
    proof (cases r1)
      case (Some e)
      with assms Inr loop1 have "out = Raised e" "w' = w1"
        by (simp_all add: render_def Let_def s3_def)
      with le1 log1 res1 sl1 suc1 Some show ?thesis by auto
    next
      case None
      obtain r2 m2 w2 where loop2:
        "competitor_isochrones net c secs (competitor_visibility s3) colors (rows companies_df) m1 w1
           = (r2, m2, w2)"
        by (cases "competitor_isochrones net c secs (competitor_visibility s3) colors
                     (rows companies_df) m1 w1")
      from competitor_isochrones_effects [OF loop2 colors] obtain new2 k2 where
        le2: "cache w1 \<subseteq>\<^sub>m cache w2" and log2: "net_calls w2 = net_calls w1 @ new2"
        and res2: "\<forall>call\<in>set new2. \<forall>e. snd call = Inl e \<longrightarrow> r2 = Some e"
        and sl2: "sleeps w2 = sleeps w1 + k2" and suc2: "succeeded new2 \<le> k2"
        and lay2: "length (layers m2) = length (layers m1) + 2 * k2"
        and all2: "r2 = None \<longrightarrow>
           k2 = length (filter (\<lambda>row. competitor_visibility s3 (Company_Location row) = Some True)
                         (rows companies_df))"
        by blast
      have out: "out = (case r2 of Some e \<Rightarrow> Raised e | None \<Rightarrow> Rendered m2 colors)" and w': "w' = w2"
        using assms Inr loop1 None loop2
        by (simp_all add: render_def Let_def s3_def colors_def split: option.splits)
      have "cache w \<subseteq>\<^sub>m cache w'"
        using le1 le2 w' by (auto intro: map_le_trans)
      moreover have "net_calls w' = net_calls w @ (new1 @ new2)"
        using log1 log2 w' by simp
      moreover have "\<forall>call\<in>set (new1 @ new2). \<forall>e. snd call = Inl e \<longrightarrow> out = Raised e"
        using res1 res2 None out by auto
      moreover have "sleeps w' = sleeps w + (k1 + k2)"
        using sl1 sl2 w' by simp
      moreover have "succeeded (new1 @ new2) \<le> k1 + k2"
        using suc1 suc2 by (simp add: succeeded_def)
      moreover have "\<forall>m legend. out = Rendered m legend \<longrightarrow>
                 length (layers m) = 2 * (k1 + k2)
                 \<and> k1 + k2 = length (project_points (project_sites s'))
                       + length (filter (\<lambda>row. competitor_visibility s' (Company_Location row) = Some True)
                           (rows companies_df))"
        using out lay1 lay2 empty all1 all2 None s' by (auto split: option.splits)
      ultimately show ?thesis by blast
    qed
  qed
qed

section \<open>The worked example\<close>

text \<open>
  One project at (40, -74), one company of group Acme at (40.1, -74.1), ten minutes: a
  first pass on a cold cache, the same pass again with the provider down, and a pass in
  which the provider fails on the company.
\<close>

lemmas example_defs =
  acme_upload_def with_key_def untouched_def acme_companies_def one_project_def
  one_site_session_def acme_world_def acme_map_def cold_def warm_def
  provider_up_def provider_down_def

lemmas run_defs =
  run_def render_def store_api_key_def setdefaults_def new_session_def Let_def
  load_and_validate_def read_excel_def companies_required_def projects_required_def
  init_project_sites_def project_checkboxes_def setdefault_def
  mean_def folium_Map_def company_colors_def unique_def tab20_def
  get_isochrone_def isochrones_def get_isochrone_key_eq sleep_def add_to_def

lemma first_pass:
  "run provider_up acme_upload None cold
     = (Rendered acme_map [(''Acme'', ''#1f77b4'')], one_site_session, acme_world)"
  by (simp add: example_defs run_defs)

lemma second_pass:
  "run provider_down acme_upload (Some one_site_session) acme_world
     = (Rendered acme_map [(''Acme'', ''#1f77b4'')], one_site_session, acme_world\<lparr>sleeps := 4\<rparr>)"
  by (simp add: example_defs run_defs)

lemma failing_pass:
  "run provider_down acme_upload None warm
     = (Raised (ApiError ''quota exceeded''), one_site_session, failed_world)"
  by (simp add: example_defs run_defs failed_world_def)

section \<open>A whole pass\<close>

lemma load_and_validate_Inr:
  assumes "load_and_validate upload = Inr (companies_df, projects_df)"
  shows "\<exists>xls. upload = Inr xls \<and> Companies xls = Some companies_df
           \<and> Projects xls = Some projects_df
           \<and> set companies_required \<subseteq> set (columns companies_df)
           \<and> set projects_required \<subseteq> set (columns projects_df)"
  using assms
  by (auto simp: load_and_validate_def read_excel_def assert_columns_None
      split: sum.splits option.splits)

lemma run_effects:
  assumes "run net inp sess w = (out, s', w')"
  shows "cache w \<subseteq>\<^sub>m cache w'
     \<and> (\<exists>new k. net_calls w' = net_calls w @ new
           \<and> (\<forall>call\<in>set new. \<forall>e. snd call = Inl e \<longrightarrow> out = Raised e)
           \<and> sleeps w' = sleeps w + k \<and> succeeded new \<le> k
           \<and> (\<forall>m legend. out = Rendered m legend \<longrightarrow>
                 length (layers m) = 2 * k
                 \<and> (\<forall>xls companies_df.
                       uploaded_file inp = Some (Inr xls) \<longrightarrow> Companies xls = Some companies_df \<longrightarrow>
                       k = length (project_points (project_sites s'))
                           + length (filter (\<lambda>row. competitor_visibility s' (Company_Location row) = Some True)
                               (rows companies_df)))))"
proof -
  define s where "s = store_api_key inp (setdefaults sess)"
  have stopped: ?thesis if "w' = w" and "\<exists>n. out = Stopped n"
    using that by (auto simp: succeeded_def)
  show ?thesis
  proof (cases "api_key s = []")
    case True
    with assms have "w' = w" "\<exists>n. out = Stopped n"
      by (auto simp: run_def Let_def s_def)
    then show ?thesis by (rule stopped)
  next
    case key: False
    show ?thesis
    proof (cases "uploaded_file inp")
      case None
      with key assms have "w' = w" "\<exists>n. out = Stopped n"
        by (auto simp: run_def Let_def s_def)
      then show ?thesis by (rule stopped)
    next
      case (Some upload)
      show ?thesis
      proof (cases "load_and_validate upload")
        case (Inl e)
        with key Some assms have "w' = w" "\<exists>n. out = Stopped n"
          by (auto simp: run_def Let_def s_def)
        then show ?thesis by (rule stopped)
      next
        case (Inr dfs)
        obtain cdf pdf where dfs: "dfs = (cdf, pdf)" by (cases dfs)
        from Inr dfs load_and_validate_Inr obtain xls0 where
          xls0: "upload = Inr xls0" "Companies xls0 = Some cdf"
          by blast
        from key Some Inr dfs assms
        have "render net inp (Client (api_key s)) (number_input inp (slider inp) * 60) cdf pdf s w
                = (out, s', w')"
          by (simp add: run_def Let_def s_def)
        from render_effects [OF this] Some xls0 show ?thesis
          by auto
      qed
    qed
  qed
qed


text \<open>
  C8. A retrieval that fails leaves the cache as it was, and its exception is the
  provider's. Over a whole pass, whatever happens in it, the cache afterwards contains the
  cache before: every entry that was there is still there with the same polygon. If a
  request of the pass failed, the pass ended with that exception uncaught, which is how
  Streamlit comes to show it.
\<close>

theorem failed_retrieval_keeps_cache:
  "(get_isochrone net c x y secs w = (Inl e, w1) \<longrightarrow> cache w1 = cache w \<and> net c x y secs = Inl e)
   \<and> (run net inp sess w = (out, s', w') \<longrightarrow>
        cache w \<subseteq>\<^sub>m cache w'
        \<and> (\<forall>call\<in>set (drop (length (net_calls w)) (net_calls w')).
              \<forall>e'. snd call = Inl e' \<longrightarrow> out = Raised e'))"
proof (intro conjI impI)
  assume call: "get_isochrone net c x y secs w = (Inl e, w1)"
  from get_isochrone_effects [OF call] show "cache w1 = cache w"
    by simp
  from call show "net c x y secs = Inl e"
    by (auto simp: get_isochrone_def isochrones_def Let_def split: option.splits sum.splits)
next
  assume pass: "run net inp sess w = (out, s', w')"
  from run_effects [OF pass] show "cache w \<subseteq>\<^sub>m cache w'"
    by blast
  from run_effects [OF pass] obtain new where
    "net_calls w' = net_calls w @ new"
    "\<forall>call\<in>set new. \<forall>e. snd call = Inl e \<longrightarrow> out = Raised e"
    by blast
  then show "\<forall>call\<in>set (drop (length (net_calls w)) (net_calls w')).
               \<forall>e'. snd call = Inl e' \<longrightarrow> out = Raised e'"
    by simp
qed

theorem failed_retrieval_keeps_cache_witness:
  "get_isochrone provider_down (Client ''secret'') (PyFloat (- 741 / 10)) (PyFloat (401 / 10)) 600 warm
     = (Inl (ApiError ''quota exceeded''), failed_world\<lparr>sleeps := 0\<rparr>)
   \<and> cache (failed_world\<lparr>sleeps := 0\<rparr>) = cache warm
   \<and> run provider_down acme_upload None warm
       = (Raised (ApiError ''quota exceeded''), one_site_session, failed_world)
   \<and> cache warm \<subseteq>\<^sub>m cache failed_world
   \<and> (((Client ''secret'', PyFloat (- 741 / 10), PyFloat (401 / 10), 600), Inl (ApiError ''quota exceeded''))
         \<in> set (drop (length (net_calls warm)) (net_calls failed_world)))"
proof -
  have call: "get_isochrone provider_down (Client ''secret'') (PyFloat (- 741 / 10)) (PyFloat (401 / 10)) 600 warm
     = (Inl (ApiError ''quota exceeded''), failed_world\<lparr>sleeps := 0\<rparr>)"
    by (simp add: get_isochrone_def isochrones_def Let_def get_isochrone_key_eq warm_def
        failed_world_def provider_down_def)
  have logged: "((Client ''secret'', PyFloat (- 741 / 10), PyFloat (401 / 10), 600), Inl (ApiError ''quota exceeded''))
         \<in> set (drop (length (net_calls warm)) (net_calls failed_world))"
    by (simp add: failed_world_def)
  from failed_retrieval_keeps_cache [where net = provider_down and c = "Client ''secret''"
      and x = "PyFloat (- 741 / 10)" and y = "PyFloat (401 / 10)" and secs = 600 and w = warm
      and e = "ApiError ''quota exceeded''" and ?w1.0 = "failed_world\<lparr>sleeps := 0\<rparr>"
      and inp = acme_upload and sess = None and out = "Raised (ApiError ''quota exceeded'')"
      and s' = one_site_session and w' = failed_world]
    call failing_pass logged
  show ?thesis by blast
qed

text \<open>
  C4, as the claim states it, does not hold: the one-second sleep follows every entry that
  is drawn, also when its polygon came from the cache. The pass of the worked example, run
  again with everything cached and the provider down, makes no request and sleeps twice.
\<close>

theorem sleep_per_network_call_counterexample:
  "run provider_up acme_upload None cold
     = (Rendered acme_map [(''Acme'', ''#1f77b4'')], one_site_session, acme_world)
   \<and> run provider_down acme_upload (Some one_site_session) acme_world
     = (Rendered acme_map [(''Acme'', ''#1f77b4'')], one_site_session, acme_world\<lparr>sleeps := 4\<rparr>)
   \<and> sleeps (acme_world\<lparr>sleeps := 4\<rparr>) = sleeps acme_world + 2
   \<and> net_calls (acme_world\<lparr>sleeps := 4\<rparr>) = net_calls acme_world
   \<and> succeeded (drop (length (net_calls acme_world)) (net_calls (acme_world\<lparr>sleeps := 4\<rparr>))) = 0"
  by (simp add: first_pass second_pass succeeded_def) (simp add: acme_world_def)

text \<open>
  C4, amended. A delay of one second is inserted after each entry that is drawn, whether
  its polygon came from the provider or from the cache. In a pass that draws the map the
  seconds slept are the number of entries on it (two layers each), which is the number of
  visible project sites plus that of shown company rows; in every pass they are at least
  the successful requests of the pass.
\<close>

theorem sleep_after_each_entry_drawn:
  assumes "run net inp sess w = (out, s', w')"
  shows "\<exists>k. sleeps w' = sleeps w + k
           \<and> succeeded (drop (length (net_calls w)) (net_calls w')) \<le> k
           \<and> (\<forall>m legend. out = Rendered m legend \<longrightarrow>
                 length (layers m) = 2 * k
                 \<and> (\<forall>xls companies_df.
                       uploaded_file inp = Some (Inr xls) \<longrightarrow> Companies xls = Some companies_df \<longrightarrow>
                       k = length (project_points (project_sites s'))
                           + length (filter (\<lambda>row. competitor_visibility s' (Company_Location row) = Some True)
                               (rows companies_df))))"
proof -
  from run_effects [OF assms] obtain new k where
    log: "net_calls w' = net_calls w @ new" and "sleeps w' = sleeps w + k" and "succeeded new \<le> k"
    and "\<forall>m legend. out = Rendered m legend \<longrightarrow>
                 length (layers m) = 2 * k
                 \<and> (\<forall>xls companies_df.
                       uploaded_file inp = Some (Inr xls) \<longrightarrow> Companies xls = Some companies_df \<longrightarrow>
                       k = length (project_points (project_sites s'))
                           + length (filter (\<lambda>row. competitor_visibility s' (Company_Location row) = Some True)
                               (rows companies_df)))"
    by blast
  moreover from log have "drop (length (net_calls w)) (net_calls w') = new"
    by simp
  ultimately show ?thesis by auto
qed

theorem sleep_after_each_entry_drawn_witness:
  "run provider_down acme_upload (Some one_site_session) acme_world
     = (Rendered acme_map [(''Acme'', ''#1f77b4'')], one_site_session, acme_world\<lparr>sleeps := 4\<rparr>)
   \<and> (\<exists>k. sleeps (acme_world\<lparr>sleeps := 4\<rparr>) = sleeps acme_world + k
         \<and> succeeded (drop (length (net_calls acme_world)) (net_calls (acme_world\<lparr>sleeps := 4\<rparr>))) \<le> k
         \<and> length (layers acme_map) = 2 * k)"
proof -
  from sleep_after_each_entry_drawn [OF second_pass] second_pass
  show ?thesis by blast
qed

section \<open>Competitor visibility\<close>

lemma setdefault_True:
  "\<forall>c v. d c = Some v \<longrightarrow> v \<Longrightarrow>
     (\<forall>c v. setdefault d k True c = Some v \<longrightarrow> v) \<and> setdefault d k True k = Some True"
  by (cases "d k") (auto simp: setdefault_def)

lemma setdefault_keeps: "d c = Some v \<Longrightarrow> setdefault d k u c = Some v"
  by (cases "d k") (auto simp: setdefault_def)

lemma init_competitors_keeps:
  "competitor_visibility s c = Some v \<Longrightarrow>
     competitor_visibility (init_competitors companies s) c = Some v"
  by (induction companies arbitrary: s) (simp_all add: setdefault_keeps)

lemma init_competitors_all_true:
  "\<forall>c v. competitor_visibility s c = Some v \<longrightarrow> v \<Longrightarrow>
     (\<forall>c v. competitor_visibility (init_competitors companies s) c = Some v \<longrightarrow> v)
     \<and> (\<forall>row\<in>set companies.
           competitor_visibility (init_competitors companies s) (Company_Location row) = Some True)"
proof (induction companies arbitrary: s)
  case Nil
  then show ?case by simp
next
  case (Cons row companies)
  let ?s = "s\<lparr>all_competitors := insert (Company_Location row) (all_competitors s),
          competitor_visibility := setdefault (competitor_visibility s) (Company_Location row) True\<rparr>"
  have vis: "competitor_visibility ?s = setdefault (competitor_visibility s) (Company_Location row) True"
    by simp
  from setdefault_True [OF Cons.prems, of "Company_Location row"]
  have inv: "\<forall>c v. competitor_visibility ?s c = Some v \<longrightarrow> v"
    and head: "competitor_visibility ?s (Company_Location row) = Some True"
    unfolding vis by blast+
  from head have "competitor_visibility (init_competitors companies ?s) (Company_Location row) = Some True"
    by (rule init_competitors_keeps)
  moreover have "init_competitors (row # companies) s = init_competitors companies ?s"
    by simp
  ultimately show ?case
    using Cons.IH [OF inv] by (simp only: set_simps ball_simps) blast
qed

lemma store_api_key_visibility [simp]:
  "competitor_visibility (store_api_key inp s) = competitor_visibility s"
  by (simp add: store_api_key_def Let_def)

lemma init_project_sites_visibility [simp]:
  "competitor_visibility (init_project_sites projects s) = competitor_visibility s"
  by (simp add: init_project_sites_def)

lemma project_checkboxes_visibility [simp]:
  "competitor_visibility (project_checkboxes cb s) = competitor_visibility s"
  by (simp add: project_checkboxes_def)

text \<open>How a pass ends, and with which session.\<close>

lemma run_cases:
  assumes "run net inp sess w = (out, s', w')"
  shows "(\<exists>n. out = Stopped n) \<and> s' = store_api_key inp (setdefaults sess) \<and> w' = w
       \<or> (\<exists>xls companies_df projects_df.
             uploaded_file inp = Some (Inr xls) \<and> Companies xls = Some companies_df
             \<and> Projects xls = Some projects_df
             \<and> set companies_required \<subseteq> set (columns companies_df)
             \<and> set projects_required \<subseteq> set (columns projects_df)
             \<and> api_key (store_api_key inp (setdefaults sess)) \<noteq> []
             \<and> render net inp (Client (api_key (store_api_key inp (setdefaults sess))))
                  (number_input inp (slider inp) * 60) companies_df projects_df
                  (store_api_key inp (setdefaults sess)) w = (out, s', w'))"
proof -
  define s where "s = store_api_key inp (setdefaults sess)"
  show ?thesis
  proof (cases "api_key s = []")
    case True
    with assms show ?thesis
      by (auto simp: run_def Let_def s_def)
  next
    case key: False
    show ?thesis
    proof (cases "uploaded_file inp")
      case None
      with key assms show ?thesis
        by (auto simp: run_def Let_def s_def)
    next
      case (Some upload)
      show ?thesis
      proof (cases "load_and_validate upload")
        case (Inl e)
        with key Some assms show ?thesis
          by (auto simp: run_def Let_def s_def)
      next
        case (Inr dfs)
        obtain cdf pdf where dfs: "dfs = (cdf, pdf)" by (cases dfs)
        from Inr dfs load_and_validate_Inr obtain xls0 where
          xls0: "upload = Inr xls0" "Companies xls0 = Some cdf" "Projects xls0 = Some pdf"
            "set companies_required \<subseteq> set (columns cdf)"
            "set projects_required \<subseteq> set (columns pdf)"
          by blast
        from key Some Inr dfs assms
        have "render net inp (Client (api_key s)) (number_input inp (slider inp) * 60) cdf pdf s w
                = (out, s', w')"
          by (simp add: run_def Let_def s_def)
        with key Some xls0 show ?thesis
          unfolding s_def by blast
      qed
    qed
  qed
qed

lemma render_session_eq:
  "render net inp c secs companies_df projects_df s w = (out, s', w') \<Longrightarrow>
     s' = project_checkboxes (checkbox inp) (init_competitors (rows companies_df)
            (init_project_sites (rows projects_df) s))"
  using render_session [of net inp c secs companies_df projects_df s w] by simp

lemma run_all_true:
  assumes "\<forall>c v. competitor_visibility (setdefaults sess) c = Some v \<longrightarrow> v"
    and "run net inp sess w = (out, s', w')"
  shows "\<forall>c v. competitor_visibility s' c = Some v \<longrightarrow> v"
proof -
  from run_cases [OF assms(2)] show ?thesis
  proof (elim disjE conjE exE)
    assume "s' = store_api_key inp (setdefaults sess)"
    then have "competitor_visibility s' = competitor_visibility (setdefaults sess)"
      by simp
    with assms(1) show ?thesis by (simp only:)
  next
    fix xls companies_df projects_df
    assume "render net inp (Client (api_key (store_api_key inp (setdefaults sess))))
                  (number_input inp (slider inp) * 60) companies_df projects_df
                  (store_api_key inp (setdefaults sess)) w = (out, s', w')"
    then have "s' = project_checkboxes (checkbox inp) (init_competitors (rows companies_df)
            (init_project_sites (rows projects_df) (store_api_key inp (setdefaults sess))))"
      by (rule render_session_eq)
    then have vis: "competitor_visibility s' = competitor_visibility (init_competitors (rows companies_df)
            (init_project_sites (rows projects_df) (store_api_key inp (setdefaults sess))))"
      by simp
    have "competitor_visibility (init_project_sites (rows projects_df)
            (store_api_key inp (setdefaults sess))) = competitor_visibility (setdefaults sess)"
      by simp
    with assms(1)
    have "\<forall>c v. competitor_visibility (init_project_sites (rows projects_df)
                   (store_api_key inp (setdefaults sess))) c = Some v \<longrightarrow> v"
      by (simp only:)
    from init_competitors_all_true [OF this] show ?thesis
      unfolding vis by blast
  qed
qed

lemma reachable_all_true:
  "reachable sess \<Longrightarrow> \<forall>c v. competitor_visibility (setdefaults sess) c = Some v \<longrightarrow> v"
proof (induction rule: reachable.induct)
  case fresh
  have "competitor_visibility (setdefaults None) = Map.empty"
    by (simp add: setdefaults_def new_session_def)
  then show ?case by simp
next
  case (pass sess net inp w out s' w')
  have "setdefaults (Some s') = s'"
    by (simp add: setdefaults_def)
  with run_all_true [OF pass.IH pass.hyps(2)] show ?case
    by (simp only:)
qed


lemma render_Rendered:
  assumes "render net inp c secs companies_df projects_df s w = (Rendered m legend, s', w')"
  shows "\<exists>m0 m1 w1.
           folium_Map (mean (map Latitude (rows companies_df)))
             (mean (map Longitude (rows companies_df))) = Inr m0
           \<and> project_isochrones net c secs (project_sites s') m0 w = (None, m1, w1)
           \<and> competitor_isochrones net c secs (competitor_visibility s') legend
                (rows companies_df) m1 w1 = (None, m, w')
           \<and> legend = company_colors tab20 (map Company_Name (rows companies_df))"
proof -
  from assms have s': "s' = project_checkboxes (checkbox inp) (init_competitors (rows companies_df)
            (init_project_sites (rows projects_df) s))"
    by (rule render_session_eq)
  from assms show ?thesis
    unfolding s'
    by (auto simp: render_def Let_def split: sum.splits option.splits prod.splits)
qed

lemma competitor_isochrones_draws:
  "competitor_isochrones net c secs vis colors companies m w = (None, m', w') \<Longrightarrow>
   \<forall>row\<in>set companies. vis (Company_Location row) = Some True \<Longrightarrow>
     set (layers m) \<subseteq> set (layers m')
     \<and> (\<forall>row\<in>set companies. \<exists>color.
           Marker (Latitude row, Longitude row) (Company_Location row) color \<in> set (layers m'))"
proof (induction companies arbitrary: m w)
  case Nil
  then show ?case by simp
next
  case (Cons row companies)
  from Cons.prems(2) have shown: "vis (Company_Location row) = Some True"
    and rest_shown: "\<forall>row\<in>set companies. vis (Company_Location row) = Some True"
    by simp_all
  obtain r1 w1 where call: "get_isochrone net c (Longitude row) (Latitude row) secs w = (r1, w1)"
    by (cases "get_isochrone net c (Longitude row) (Latitude row) secs w")
  from Cons.prems(1) shown call obtain polygon color where
    "r1 = Inr polygon" and color: "map_of colors (Company_Name row) = Some color"
    by (auto split: sum.splits option.splits)
  let ?m = "add_to (Marker (Latitude row, Longitude row) (Company_Location row) color)
              (add_to (GeoJson polygon color) m)"
  from Cons.prems(1) shown call \<open>r1 = Inr polygon\<close> color
  have rest: "competitor_isochrones net c secs vis colors companies ?m (sleep 1 w1) = (None, m', w')"
    by simp
  from Cons.IH [OF rest rest_shown]
  have sub: "set (layers ?m) \<subseteq> set (layers m')"
    and others: "\<forall>row\<in>set companies. \<exists>color.
           Marker (Latitude row, Longitude row) (Company_Location row) color \<in> set (layers m')"
    by blast+
  have "set (layers m) \<subseteq> set (layers ?m)"
    and "Marker (Latitude row, Longitude row) (Company_Location row) color \<in> set (layers ?m)"
    by (auto simp: add_to_def)
  with sub others show ?case by auto
qed

text \<open>
  C9. In every session a browser can reach, every entry of the competitor-visibility store
  is true, before a pass and after it, whatever the user did: the store is filled with
  true for each company location met and nothing else writes to it. So in a pass that
  draws the map, every company row of the uploaded sheet has a true entry and a marker on
  the map.
\<close>

theorem competitor_visibility_always_true:
  assumes "reachable sess" and "run net inp sess w = (out, s', w')"
  shows "(\<forall>c v. competitor_visibility (setdefaults sess) c = Some v \<longrightarrow> v)
       \<and> (\<forall>c v. competitor_visibility s' c = Some v \<longrightarrow> v)
       \<and> (\<forall>m legend xls companies_df.
             out = Rendered m legend \<longrightarrow> uploaded_file inp = Some (Inr xls) \<longrightarrow>
             Companies xls = Some companies_df \<longrightarrow>
             (\<forall>row\<in>set (rows companies_df).
                competitor_visibility s' (Company_Location row) = Some True
                \<and> (\<exists>color. Marker (Latitude row, Longitude row) (Company_Location row) color
                             \<in> set (layers m))))"
proof (intro conjI allI impI)
  from assms(1) show before: "competitor_visibility (setdefaults sess) c = Some v \<Longrightarrow> v" for c v
    using reachable_all_true by blast
  from assms(1) have inv: "\<forall>c v. competitor_visibility (setdefaults sess) c = Some v \<longrightarrow> v"
    by (rule reachable_all_true)
  from run_all_true [OF inv assms(2)]
  show "competitor_visibility s' c = Some v \<Longrightarrow> v" for c v
    by blast
  fix m legend xls companies_df
  assume out: "out = Rendered m legend" and upload: "uploaded_file inp = Some (Inr xls)"
    and sheet: "Companies xls = Some companies_df"
  let ?s = "store_api_key inp (setdefaults sess)"
  from run_cases [OF assms(2)] out upload sheet obtain projects_df where
    render: "render net inp (Client (api_key ?s)) (number_input inp (slider inp) * 60)
               companies_df projects_df ?s w = (Rendered m legend, s', w')"
    by auto
  from render have "s' = project_checkboxes (checkbox inp) (init_competitors (rows companies_df)
            (init_project_sites (rows projects_df) ?s))"
    by (rule render_session_eq)
  then have vis: "competitor_visibility s' = competitor_visibility (init_competitors (rows companies_df)
            (init_project_sites (rows projects_df) ?s))"
    by simp
  have "competitor_visibility (init_project_sites (rows projects_df) ?s)
          = competitor_visibility (setdefaults sess)"
    by simp
  with inv have "\<forall>c v. competitor_visibility (init_project_sites (rows projects_df) ?s) c = Some v \<longrightarrow> v"
    by (simp only:)
  from init_competitors_all_true [OF this]
  have shown: "\<forall>row\<in>set (rows companies_df). competitor_visibility s' (Company_Location row) = Some True"
    unfolding vis by blast
  from render_Rendered [OF render] obtain m1 w1 where
    "competitor_isochrones net (Client (api_key ?s)) (number_input inp (slider inp) * 60)
       (competitor_visibility s') legend (rows companies_df) m1 w1 = (None, m, w')"
    by blast
  from competitor_isochrones_draws [OF this shown]
  have "\<forall>row\<in>set (rows companies_df). \<exists>color.
           Marker (Latitude row, Longitude row) (Company_Location row) color \<in> set (layers m)"
    by blast
  with shown
  show "\<forall>row\<in>set (rows companies_df).
                competitor_visibility s' (Company_Location row) = Some True
                \<and> (\<exists>color. Marker (Latitude row, Longitude row) (Company_Location row) color
                             \<in> set (layers m))"
    by blast
qed

theorem competitor_visibility_always_true_witness:
  "reachable None
   \<and> run provider_up acme_upload None cold
       = (Rendered acme_map [(''Acme'', ''#1f77b4'')], one_site_session, acme_world)
   \<and> uploaded_file acme_upload = Some (Inr \<lparr>Companies = Some acme_companies, Projects = Some one_project\<rparr>)
   \<and> competitor_visibility one_site_session ''Acme HQ'' = Some True
   \<and> (\<exists>color. Marker (PyFloat (401 / 10), PyFloat (- 741 / 10)) ''Acme HQ'' color \<in> set (layers acme_map))"
proof -
  have upload: "uploaded_file acme_upload
      = Some (Inr \<lparr>Companies = Some acme_companies, Projects = Some one_project\<rparr>)"
    by (simp add: acme_upload_def)
  have sheet: "Companies \<lparr>Companies = Some acme_companies, Projects = Some one_project\<rparr>
      = Some acme_companies"
    by simp
  have row: "\<lparr>Company_Location = ''Acme HQ'', Latitude = PyFloat (401 / 10), Longitude = PyFloat (- 741 / 10),
               Company_Name = ''Acme''\<rparr> \<in> set (rows acme_companies)"
    by (simp add: acme_companies_def)
  from competitor_visibility_always_true [OF reachable.fresh first_pass] upload sheet
  have "\<forall>row\<in>set (rows acme_companies).
         competitor_visibility one_site_session (Company_Location row) = Some True
         \<and> (\<exists>color. Marker (Latitude row, Longitude row) (Company_Location row) color
                      \<in> set (layers acme_map))"
    by blast
  from this [rule_format, OF row]
  have "competitor_visibility one_site_session ''Acme HQ'' = Some True
        \<and> (\<exists>color. Marker (PyFloat (401 / 10), PyFloat (- 741 / 10)) ''Acme HQ'' color \<in> set (layers acme_map))"
    by simp
  with reachable.fresh first_pass upload show ?thesis by blast
qed

section \<open>The requests of a pass\<close>

text \<open>
  When the provider answers every request that is not served from the cache, a loop runs
  to its end, and its requests are the points it asks for that are not cached yet, each
  once, in order of first appearance.
\<close>

lemma cached_iff:
  "(x, y) \<in> cached secs w \<longleftrightarrow> cache w (get_isochrone_key c x y secs) \<noteq> None"
  by (simp add: cached_def get_isochrone_key_eq)

lemma cached_cold: "cache w = Map.empty \<Longrightarrow> cached secs w = {}"
  by (simp add: cached_def)

lemma cached_sleep [simp]: "cached secs (sleep n w) = cached secs w"
  by (simp add: cached_def sleep_def)

lemma unseen_append: "unseen S (xs @ ys) = unseen S xs @ unseen (S \<union> set xs) ys"
  by (induction xs arbitrary: S) (auto simp: insert_absorb)

lemma unseen_all_seen: "set xs \<subseteq> S \<Longrightarrow> unseen S xs = []"
  by (induction xs arbitrary: S) auto

lemma unseen_distinct_new: "distinct xs \<Longrightarrow> set xs \<inter> S = {} \<Longrightarrow> unseen S xs = xs"
  by (induction xs arbitrary: S) auto

lemma length_unique: "length (unique xs) = card (set xs)"
  using distinct_card [OF unique_distinct, of xs] by (simp add: unique_set)

lemma length_unique_le: "length (unique xs) \<le> length xs"
  by (simp add: length_unique card_length)

lemma get_isochrone_answered:
  assumes "(x, y) \<in> cached secs w \<or> (\<exists>v. net c x y secs = Inr v)"
  shows "\<exists>v w'. get_isochrone net c x y secs w = (Inr v, w')
           \<and> cached secs w' = insert (x, y) (cached secs w)
           \<and> (\<exists>new. net_calls w' = net_calls w @ new
                 \<and> map fst new = map (\<lambda>(x, y). (c, x, y, secs)) (unseen (cached secs w) [(x, y)]))"
proof (cases "cache w (get_isochrone_key c x y secs)")
  case (Some u)
  then have seen: "(x, y) \<in> cached secs w"
    by (simp add: cached_iff [of x y secs w c])
  from Some have "get_isochrone net c x y secs w = (Inr u, w)"
    by (rule get_isochrone_hit)
  with seen show ?thesis
    by (auto simp: insert_absorb)
next
  case None
  then have unseen: "(x, y) \<notin> cached secs w"
    by (simp add: cached_iff [of x y secs w c])
  with assms obtain v where v: "net c x y secs = Inr v"
    by blast
  let ?w = "w\<lparr>net_calls := net_calls w @ [((c, x, y, secs), Inr v)],
              cache := (cache w)(get_isochrone_key c x y secs \<mapsto> v)\<rparr>"
  from None v have call: "get_isochrone net c x y secs w = (Inr v, ?w)"
    by (rule get_isochrone_miss_ok)
  have "cached secs ?w = insert (x, y) (cached secs w)"
    by (auto simp: cached_def get_isochrone_key_eq)
  with call unseen show ?thesis
    by simp
qed

lemma project_isochrones_answered:
  assumes "\<forall>p\<in>set (project_points sites). p \<in> cached secs w \<or> (\<exists>v. net c (fst p) (snd p) secs = Inr v)"
  shows "\<exists>m' w'. project_isochrones net c secs sites m w = (None, m', w')
           \<and> cached secs w' = cached secs w \<union> set (project_points sites)
           \<and> (\<exists>new. net_calls w' = net_calls w @ new
                 \<and> map fst new
                     = map (\<lambda>(x, y). (c, x, y, secs)) (unseen (cached secs w) (project_points sites)))"
  using assms
proof (induction sites arbitrary: m w)
  case Nil
  then show ?case by (simp add: project_points_def)
next
  case (Cons site sites)
  obtain pname pdata where site: "site = (pname, pdata)" by (cases site)
  show ?case
  proof (cases "visible pdata")
    case False
    with site have same: "project_points (site # sites) = project_points sites"
      and step: "project_isochrones net c secs (site # sites) m w
                   = project_isochrones net c secs sites m w"
      by (simp_all add: project_points_def)
    from Cons.IH [of w m] Cons.prems show ?thesis
      unfolding same step by blast
  next
    case True
    let ?p = "(lon pdata, lat pdata)"
    from True site have points: "project_points (site # sites) = ?p # project_points sites"
      by (simp add: project_points_def)
    from Cons.prems points
    have "?p \<in> cached secs w \<or> (\<exists>v. net c (lon pdata) (lat pdata) secs = Inr v)"
      by simp
    from get_isochrone_answered [where net = net and c = c, OF this] obtain v w1 new1 where
      call: "get_isochrone net c (lon pdata) (lat pdata) secs w = (Inr v, w1)"
      and seen1: "cached secs w1 = insert ?p (cached secs w)"
      and log1: "net_calls w1 = net_calls w @ new1"
      and new1: "map fst new1 = map (\<lambda>(x, y). (c, x, y, secs)) (unseen (cached secs w) [?p])"
      by blast
    let ?m = "add_to (Marker (lat pdata, lon pdata) pname ''red'') (add_to (GeoJson v ''#ff0000'') m)"
    from call True site
    have step: "project_isochrones net c secs (site # sites) m w
                  = project_isochrones net c secs sites ?m (sleep 1 w1)"
      by simp
    from Cons.prems points seen1
    have "\<forall>p\<in>set (project_points sites).
            p \<in> cached secs (sleep 1 w1) \<or> (\<exists>v. net c (fst p) (snd p) secs = Inr v)"
      by auto
    from Cons.IH [OF this, of ?m] obtain m' w' new where
      rest: "project_isochrones net c secs sites ?m (sleep 1 w1) = (None, m', w')"
      and seen: "cached secs w' = cached secs (sleep 1 w1) \<union> set (project_points sites)"
      and log: "net_calls w' = net_calls (sleep 1 w1) @ new"
      and new: "map fst new = map (\<lambda>(x, y). (c, x, y, secs))
                   (unseen (cached secs (sleep 1 w1)) (project_points sites))"
      by blast
    have "cached secs w' = cached secs w \<union> set (project_points (site # sites))"
      using seen seen1 points by auto
    moreover have "net_calls w' = net_calls w @ (new1 @ new)"
      using log log1 by (simp add: sleep_def)
    moreover have "unseen (cached secs w) (project_points (site # sites))
        = unseen (cached secs w) [?p] @ unseen (insert ?p (cached secs w)) (project_points sites)"
      unfolding points using unseen_append [of "cached secs w" "[?p]" "project_points sites"]
      by simp
    then have "map fst (new1 @ new)
        = map (\<lambda>(x, y). (c, x, y, secs)) (unseen (cached secs w) (project_points (site # sites)))"
      using new1 new seen1 by simp
    ultimately show ?thesis
      unfolding step using rest by blast
  qed
qed

lemma competitor_isochrones_answered:
  assumes "\<forall>p\<in>set (company_points companies). p \<in> cached secs w \<or> (\<exists>v. net c (fst p) (snd p) secs = Inr v)"
    and "\<forall>row\<in>set companies. vis (Company_Location row) = Some True"
    and "\<forall>row\<in>set companies. map_of colors (Company_Name row) \<noteq> None"
  shows "\<exists>m' w'. competitor_isochrones net c secs vis colors companies m w = (None, m', w')
           \<and> cached secs w' = cached secs w \<union> set (company_points companies)
           \<and> (\<exists>new. net_calls w' = net_calls w @ new
                 \<and> map fst new
                     = map (\<lambda>(x, y). (c, x, y, secs)) (unseen (cached secs w) (company_points companies)))"
  using assms
proof (induction companies arbitrary: m w)
  case Nil
  then show ?case by (simp add: company_points_def)
next
  case (Cons row companies)
  let ?p = "(Longitude row, Latitude row)"
  have points: "company_points (row # companies) = ?p # company_points companies"
    by (simp add: company_points_def)
  from Cons.prems(2) have shown: "vis (Company_Location row) = Some True" by simp
  from Cons.prems(3) obtain color where color: "map_of colors (Company_Name row) = Some color"
    by auto
  from Cons.prems(1) points
  have "?p \<in> cached secs w \<or> (\<exists>v. net c (Longitude row) (Latitude row) secs = Inr v)"
    by simp
  from get_isochrone_answered [where net = net and c = c, OF this] obtain v w1 new1 where
    call: "get_isochrone net c (Longitude row) (Latitude row) secs w = (Inr v, w1)"
    and seen1: "cached secs w1 = insert ?p (cached secs w)"
    and log1: "net_calls w1 = net_calls w @ new1"
    and new1: "map fst new1 = map (\<lambda>(x, y). (c, x, y, secs)) (unseen (cached secs w) [?p])"
    by blast
  let ?m = "add_to (Marker (Latitude row, Longitude row) (Company_Location row) color)
              (add_to (GeoJson v color) m)"
  from call shown color
  have step: "competitor_isochrones net c secs vis colors (row # companies) m w
                = competitor_isochrones net c secs vis colors companies ?m (sleep 1 w1)"
    by simp
  from Cons.prems(1) points seen1
  have "\<forall>p\<in>set (company_points companies).
          p \<in> cached secs (sleep 1 w1) \<or> (\<exists>v. net c (fst p) (snd p) secs = Inr v)"
    by auto
  moreover from Cons.prems(2) have "\<forall>row\<in>set companies. vis (Company_Location row) = Some True"
    by simp
  moreover from Cons.prems(3) have "\<forall>row\<in>set companies. map_of colors (Company_Name row) \<noteq> None"
    by simp
  ultimately obtain m' w' new where
    rest: "competitor_isochrones net c secs vis colors companies ?m (sleep 1 w1) = (None, m', w')"
    and seen: "cached secs w' = cached secs (sleep 1 w1) \<union> set (company_points companies)"
    and log: "net_calls w' = net_calls (sleep 1 w1) @ new"
    and new: "map fst new = map (\<lambda>(x, y). (c, x, y, secs))
                 (unseen (cached secs (sleep 1 w1)) (company_points companies))"
    using Cons.IH [of "sleep 1 w1" ?m] by blast
  have "cached secs w' = cached secs w \<union> set (company_points (row # companies))"
    using seen seen1 points by auto
  moreover have "net_calls w' = net_calls w @ (new1 @ new)"
    using log log1 by (simp add: sleep_def)
  moreover have "unseen (cached secs w) (company_points (row # companies))
      = unseen (cached secs w) [?p] @ unseen (insert ?p (cached secs w)) (company_points companies)"
    unfolding points using unseen_append [of "cached secs w" "[?p]" "company_points companies"]
    by simp
  then have "map fst (new1 @ new)
      = map (\<lambda>(x, y). (c, x, y, secs)) (unseen (cached secs w) (company_points (row # companies)))"
    using new1 new seen1 by simp
  ultimately show ?case
    unfolding step using rest by blast
qed

lemma mean_nonempty: "xs \<noteq> [] \<Longrightarrow> \<exists>a. mean xs = Some a"
  by (simp add: mean_def)

lemma folium_Map_ok:
  "companies \<noteq> [] \<Longrightarrow>
     \<exists>m0. folium_Map (mean (map Latitude companies)) (mean (map Longitude companies)) = Inr m0"
  by (simp add: folium_Map_def mean_def)

lemma render_answered:
  assumes inv: "\<forall>c v. competitor_visibility s c = Some v \<longrightarrow> v"
    and nonempty: "rows companies_df \<noteq> []"
    and s3: "s3 = project_checkboxes (checkbox inp) (init_competitors (rows companies_df)
                    (init_project_sites (rows projects_df) s))"
    and points: "points = project_points (project_sites s3) @ company_points (rows companies_df)"
    and answers: "\<forall>p\<in>set points. p \<in> cached secs w \<or> (\<exists>v. net c (fst p) (snd p) secs = Inr v)"
  shows "\<exists>m w'. render net inp c secs companies_df projects_df s w
                  = (Rendered m (company_colors tab20 (map Company_Name (rows companies_df))), s3, w')
           \<and> cached secs w' = cached secs w \<union> set points
           \<and> (\<exists>new. net_calls w' = net_calls w @ new
                 \<and> map fst new = map (\<lambda>(x, y). (c, x, y, secs)) (unseen (cached secs w) points))"
proof -
  let ?colors = "company_colors tab20 (map Company_Name (rows companies_df))"
  from nonempty obtain m0 where m0:
    "folium_Map (mean (map Latitude (rows companies_df)))
       (mean (map Longitude (rows companies_df))) = Inr m0"
    using folium_Map_ok by blast
  from answers points
  have "\<forall>p\<in>set (project_points (project_sites s3)).
          p \<in> cached secs w \<or> (\<exists>v. net c (fst p) (snd p) secs = Inr v)"
    by simp
  from project_isochrones_answered [where net = net and c = c and m = m0, OF this] obtain m1 w1 new1 where
    loop1: "project_isochrones net c secs (project_sites s3) m0 w = (None, m1, w1)"
    and seen1: "cached secs w1 = cached secs w \<union> set (project_points (project_sites s3))"
    and log1: "net_calls w1 = net_calls w @ new1"
    and new1: "map fst new1 = map (\<lambda>(x, y). (c, x, y, secs))
                 (unseen (cached secs w) (project_points (project_sites s3)))"
    by blast
  from answers points seen1
  have ans2: "\<forall>p\<in>set (company_points (rows companies_df)).
          p \<in> cached secs w1 \<or> (\<exists>v. net c (fst p) (snd p) secs = Inr v)"
    by auto
  have "competitor_visibility (init_project_sites (rows projects_df) s) = competitor_visibility s"
    by simp
  with inv have "\<forall>c v. competitor_visibility (init_project_sites (rows projects_df) s) c = Some v \<longrightarrow> v"
    by (simp only:)
  from init_competitors_all_true [OF this, of "rows companies_df"]
  have shown: "\<forall>row\<in>set (rows companies_df). competitor_visibility s3 (Company_Location row) = Some True"
    unfolding s3 by simp
  have colors: "\<forall>row\<in>set (rows companies_df). map_of ?colors (Company_Name row) \<noteq> None"
    by (simp add: company_colors_has_all)
  from competitor_isochrones_answered [where net = net and c = c and m = m1, OF ans2 shown colors] obtain m2 w2 new2 where
    loop2: "competitor_isochrones net c secs (competitor_visibility s3) ?colors
              (rows companies_df) m1 w1 = (None, m2, w2)"
    and seen2: "cached secs w2 = cached secs w1 \<union> set (company_points (rows companies_df))"
    and log2: "net_calls w2 = net_calls w1 @ new2"
    and new2: "map fst new2 = map (\<lambda>(x, y). (c, x, y, secs))
                 (unseen (cached secs w1) (company_points (rows companies_df)))"
    by blast
  have "render net inp c secs companies_df projects_df s w = (Rendered m2 ?colors, s3, w2)"
    using m0 loop1 loop2 by (simp add: render_def Let_def s3)
  moreover have "cached secs w2 = cached secs w \<union> set points"
    using seen1 seen2 points by auto
  moreover have "net_calls w2 = net_calls w @ (new1 @ new2)"
    using log1 log2 by simp
  moreover have "map fst (new1 @ new2) = map (\<lambda>(x, y). (c, x, y, secs)) (unseen (cached secs w) points)"
    using new1 new2 seen1 points by (simp add: unseen_append)
  ultimately show ?thesis by blast
qed

lemma load_and_validate_ok:
  "Companies xls = Some companies_df \<Longrightarrow> Projects xls = Some projects_df \<Longrightarrow>
   set companies_required \<subseteq> set (columns companies_df) \<Longrightarrow>
   set projects_required \<subseteq> set (columns projects_df) \<Longrightarrow>
     load_and_validate (Inr xls) = Inr (companies_df, projects_df)"
  by (simp add: load_and_validate_def read_excel_def assert_columns_None [THEN iffD2])

lemma run_loaded:
  assumes "api_key (store_api_key inp (setdefaults sess)) \<noteq> []"
    and "uploaded_file inp = Some (Inr xls)"
    and "Companies xls = Some companies_df" and "Projects xls = Some projects_df"
    and "set companies_required \<subseteq> set (columns companies_df)"
    and "set projects_required \<subseteq> set (columns projects_df)"
  shows "run net inp sess w
           = render net inp (Client (api_key (store_api_key inp (setdefaults sess))))
               (number_input inp (slider inp) * 60) companies_df projects_df
               (store_api_key inp (setdefaults sess)) w"
  using assms(1,2) load_and_validate_ok [OF assms(3-6)]
  by (simp add: run_def Let_def)

lemma store_api_key_nonempty: "api_key s \<noteq> [] \<Longrightarrow> api_key (store_api_key inp s) \<noteq> []"
  by (simp add: store_api_key_def Let_def)

lemma init_competitors_api_key [simp]: "api_key (init_competitors companies s) = api_key s"
  by (induction companies arbitrary: s) simp_all

lemma pass_api_key:
  "api_key (project_checkboxes cb (init_competitors companies (init_project_sites projects s)))
     = api_key s"
  by (simp add: project_checkboxes_def init_project_sites_def)

text \<open>The project sites after a pass are what the next pass starts its checkboxes from.\<close>

lemma init_project_sites_again:
  assumes "project_sites s3 = project_sites (project_checkboxes cb (init_project_sites projects s))"
    and "project_sites s2 = project_sites s3"
  shows "project_sites (init_project_sites projects s2) = project_sites s3"
proof (cases "project_sites s3 = []")
  case False
  with assms(2) show ?thesis by (simp add: init_project_sites_def)
next
  case True
  with assms(1) have "project_sites (init_project_sites projects s) = []"
    by (simp add: project_checkboxes_def)
  then have "foldl (\<lambda>d row. dict_setitem d (Project_Name row)
                     \<lparr>lat = Project_Latitude row, lon = Project_Longitude row, visible = True\<rparr>)
              [] projects = []"
    by (cases "project_sites s = []") (simp_all add: init_project_sites_def)
  with True assms(2) show ?thesis by (simp add: init_project_sites_def)
qed

lemma mixed_pass:
  "run provider_up mixed_upload None cold
     = (Rendered mixed_map [(''Acme'', ''#1f77b4''), (''Bolt'', ''#aec7e8'')], twin_session,
        mixed_world)"
  by (simp add: example_defs run_defs mixed_upload_def mixed_workbook_def mixed_companies_def
      mixed_map_def mixed_world_def twin_session_def)

lemma twin_pass:
  "run provider_up twin_upload None cold
     = (Rendered twin_map [(''Acme'', ''#1f77b4''), (''Bolt'', ''#aec7e8'')], twin_session,
        acme_world\<lparr>sleeps := 3\<rparr>)"
  by (simp add: example_defs run_defs twin_upload_def twin_companies_def twin_map_def
      twin_session_def)

text \<open>
  C2, as the claim states it, does not hold: the cache is keyed on the point and the
  duration, so two entries at the same point share one request. With two company rows at
  one address and one visible project, a pass on a cold cache draws three entries and
  makes two requests.
\<close>

theorem one_call_per_entry_counterexample:
  "run provider_up twin_upload None cold
     = (Rendered twin_map [(''Acme'', ''#1f77b4''), (''Bolt'', ''#aec7e8'')], twin_session,
        acme_world\<lparr>sleeps := 3\<rparr>)
   \<and> cache cold = Map.empty
   \<and> length (rows twin_companies)
       + length (filter (\<lambda>(pname, pdata). visible pdata) (project_sites twin_session)) = 3
   \<and> length (net_calls (acme_world\<lparr>sleeps := 3\<rparr>)) = length (net_calls cold) + 2"
  by (simp add: twin_pass) (simp add: cold_def twin_companies_def twin_session_def acme_world_def)

text \<open>
  C2, amended. Take a session a browser can reach, a key, a workbook with both sheets, all
  required columns and at least one company row, a provider that answers, and a cold
  cache. Then the pass draws the map, and it makes one request for each distinct pair
  (longitude, latitude) among the M visible project sites and the N company rows, the
  pairs compared as the cache hashes them, that is as Python values with their types: at
  most N+M requests, and exactly N+M when the pairs are pairwise different. The same pass
  again, with the same file and duration and the checkboxes left alone, draws the map and
  makes no request, whatever the provider would answer. In the worked input below a
  project at the integers (40, -74) and a company at the floats (40.0, -74.0) are two
  pairs, so that pass makes three requests for its three entries.
\<close>

theorem network_calls_on_cold_cache:
  assumes reach: "reachable sess"
    and key: "api_key (store_api_key inp (setdefaults sess)) \<noteq> []"
    and upload: "uploaded_file inp = Some (Inr xls)"
    and sheets: "Companies xls = Some companies_df" "Projects xls = Some projects_df"
    and cols: "set companies_required \<subseteq> set (columns companies_df)"
      "set projects_required \<subseteq> set (columns projects_df)"
    and nonempty: "rows companies_df \<noteq> []"
    and answers: "\<forall>x y. \<exists>v. net (Client (api_key (store_api_key inp (setdefaults sess)))) x y
                            (number_input inp (slider inp) * 60) = Inr v"
    and cold: "cache w = Map.empty"
    and again: "uploaded_file inp2 = uploaded_file inp"
      "number_input inp2 (slider inp2) = number_input inp (slider inp)"
      "\<forall>label d. checkbox inp2 label d = d"
  shows "\<exists>m legend s' w' m2 legend2 s2 w2.
           run net inp sess w = (Rendered m legend, s', w')
           \<and> length (net_calls w')
               = length (net_calls w)
                 + card (set (project_points (project_sites s') @ company_points (rows companies_df)))
           \<and> card (set (project_points (project_sites s') @ company_points (rows companies_df)))
               \<le> length (project_points (project_sites s')) + length (rows companies_df)
           \<and> (distinct (project_points (project_sites s') @ company_points (rows companies_df)) \<longrightarrow>
                length (net_calls w')
                  = length (net_calls w)
                    + (length (project_points (project_sites s')) + length (rows companies_df)))
           \<and> run net2 inp2 (Some s') w' = (Rendered m2 legend2, s2, w2)
           \<and> net_calls w2 = net_calls w'"
proof -
  define s1 where "s1 = store_api_key inp (setdefaults sess)"
  define c where "c = Client (api_key s1)"
  define secs where "secs = number_input inp (slider inp) * 60"
  define s3 where "s3 = project_checkboxes (checkbox inp) (init_competitors (rows companies_df)
                    (init_project_sites (rows projects_df) s1))"
  define points where "points = project_points (project_sites s3) @ company_points (rows companies_df)"
  let ?colors = "company_colors tab20 (map Company_Name (rows companies_df))"

  have n_points: "length points = length (project_points (project_sites s3)) + length (rows companies_df)"
    by (simp add: points_def company_points_def)

  from reach have "\<forall>c v. competitor_visibility (setdefaults sess) c = Some v \<longrightarrow> v"
    by (rule reachable_all_true)
  moreover have "competitor_visibility s1 = competitor_visibility (setdefaults sess)"
    by (simp add: s1_def)
  ultimately have inv1: "\<forall>c v. competitor_visibility s1 c = Some v \<longrightarrow> v"
    by (simp only:)
  have run1: "run net inp sess w = render net inp c secs companies_df projects_df s1 w"
    unfolding c_def secs_def s1_def using key upload sheets cols by (rule run_loaded)
  from answers have ans1: "\<forall>p\<in>set points. p \<in> cached secs w \<or> (\<exists>v. net c (fst p) (snd p) secs = Inr v)"
    by (simp add: c_def s1_def secs_def)
  from render_answered [where net = net and c = c and inp = inp and projects_df = projects_df,
      OF inv1 nonempty s3_def points_def ans1]
  obtain m w' new where
    render1: "render net inp c secs companies_df projects_df s1 w = (Rendered m ?colors, s3, w')"
    and seen: "cached secs w' = cached secs w \<union> set points"
    and log: "net_calls w' = net_calls w @ new"
    and new: "map fst new = map (\<lambda>(x, y). (c, x, y, secs)) (unseen (cached secs w) points)"
    by blast
  from cold have "cached secs w = {}" by (rule cached_cold)
  with new have "map fst new = map (\<lambda>(x, y). (c, x, y, secs)) (unique points)"
    by (simp add: unique_def)
  then have "length (map fst new) = length (map (\<lambda>(x, y). (c, x, y, secs)) (unique points))"
    by (simp only:)
  then have "length new = card (set points)"
    by (simp add: length_unique)
  with log have count: "length (net_calls w') = length (net_calls w) + card (set points)"
    by simp
  have bound: "card (set points) \<le> length (project_points (project_sites s3)) + length (rows companies_df)"
    using card_length [of points] n_points by simp
  have exact: "length (net_calls w')
                  = length (net_calls w)
                    + (length (project_points (project_sites s3)) + length (rows companies_df))"
    if "distinct points"
    using count distinct_card [OF that] n_points by simp

  define s2 where "s2 = store_api_key inp2 (setdefaults (Some s3))"
  define c2 where "c2 = Client (api_key s2)"
  define s4 where "s4 = project_checkboxes (checkbox inp2) (init_competitors (rows companies_df)
                    (init_project_sites (rows projects_df) s2))"
  have s2: "s2 = store_api_key inp2 s3"
    by (simp add: s2_def setdefaults_def)
  have "api_key s3 = api_key s1"
    unfolding s3_def by (rule pass_api_key)
  with key have "api_key s3 \<noteq> []"
    by (simp add: s1_def)
  then have key2: "api_key (store_api_key inp2 (setdefaults (Some s3))) \<noteq> []"
    unfolding s2_def [symmetric] s2 by (rule store_api_key_nonempty)
  from upload again(1) have upload2: "uploaded_file inp2 = Some (Inr xls)"
    by simp
  have run2: "run net2 inp2 (Some s3) w' = render net2 inp2 c2 secs companies_df projects_df s2 w'"
    unfolding c2_def secs_def s2_def again(2) [symmetric]
    using key2 upload2 sheets cols by (rule run_loaded)
  from run1 render1 have pass1: "run net inp sess w = (Rendered m ?colors, s3, w')"
    by simp
  from reach have "\<forall>c v. competitor_visibility (setdefaults sess) c = Some v \<longrightarrow> v"
    by (rule reachable_all_true)
  from run_all_true [OF this pass1] have "\<forall>c v. competitor_visibility s3 c = Some v \<longrightarrow> v" .
  moreover have "competitor_visibility s2 = competitor_visibility s3"
    by (simp add: s2)
  ultimately have inv2: "\<forall>c v. competitor_visibility s2 c = Some v \<longrightarrow> v"
    by (simp only:)
  have "project_sites s3 = project_sites (project_checkboxes (checkbox inp)
          (init_project_sites (rows projects_df) s1))"
    by (simp add: s3_def project_checkboxes_def)
  moreover have "project_sites s2 = project_sites s3"
    by (simp add: s2)
  ultimately have "project_sites (init_project_sites (rows projects_df) s2) = project_sites s3"
    by (rule init_project_sites_again)
  moreover have "project_sites s4 = project_sites (init_project_sites (rows projects_df) s2)"
    using project_checkboxes_idle [OF again(3)]
    by (simp add: s4_def project_checkboxes_def)
  ultimately have sites: "project_sites s4 = project_sites s3"
    by simp
  have points2: "points = project_points (project_sites s4) @ company_points (rows companies_df)"
    by (simp add: points_def sites)
  from seen have all_seen: "set points \<subseteq> cached secs w'"
    by simp
  then have ans2: "\<forall>p\<in>set points. p \<in> cached secs w' \<or> (\<exists>v. net2 c2 (fst p) (snd p) secs = Inr v)"
    by blast
  from render_answered [where net = net2 and c = c2 and inp = inp2 and projects_df = projects_df,
      OF inv2 nonempty s4_def points2 ans2]
  obtain m2 w2 new2 where
    render2: "render net2 inp2 c2 secs companies_df projects_df s2 w' = (Rendered m2 ?colors, s4, w2)"
    and log2: "net_calls w2 = net_calls w' @ new2"
    and new2: "map fst new2 = map (\<lambda>(x, y). (c2, x, y, secs)) (unseen (cached secs w') points)"
    by blast
  from all_seen have "unseen (cached secs w') points = []"
    by (rule unseen_all_seen)
  with new2 log2 have none: "net_calls w2 = net_calls w'"
    by simp
  from run2 render2 have pass2: "run net2 inp2 (Some s3) w' = (Rendered m2 ?colors, s4, w2)"
    by simp
  from pass1 count bound exact pass2 none show ?thesis
    unfolding points_def by blast
qed


theorem network_calls_on_cold_cache_witness:
  "reachable None
   \<and> api_key (store_api_key mixed_upload (setdefaults None)) = ''secret''
   \<and> uploaded_file mixed_upload = Some (Inr mixed_workbook)
   \<and> Companies mixed_workbook = Some mixed_companies
   \<and> Projects mixed_workbook = Some one_project
   \<and> set companies_required \<subseteq> set (columns mixed_companies)
   \<and> set projects_required \<subseteq> set (columns one_project)
   \<and> length (rows mixed_companies) = 2
   \<and> (\<forall>x y. \<exists>v. provider_up (Client (api_key (store_api_key mixed_upload (setdefaults None)))) x y
                   (number_input mixed_upload (slider mixed_upload) * 60) = Inr v)
   \<and> cache cold = Map.empty
   \<and> (\<forall>label d. checkbox mixed_upload label d = d)
   \<and> run provider_up mixed_upload None cold
       = (Rendered mixed_map [(''Acme'', ''#1f77b4''), (''Bolt'', ''#aec7e8'')], twin_session,
          mixed_world)
   \<and> project_points (project_sites twin_session) @ company_points (rows mixed_companies)
       = [(PyInt (- 74), PyInt 40), (PyFloat (- 74), PyFloat 40),
          (PyFloat (- 741 / 10), PyFloat (401 / 10))]
   \<and> distinct (project_points (project_sites twin_session) @ company_points (rows mixed_companies))
   \<and> length (net_calls mixed_world) = length (net_calls cold) + (1 + 2)
   \<and> (\<exists>m2 legend2 s2 w2.
         run provider_down mixed_upload (Some twin_session) mixed_world = (Rendered m2 legend2, s2, w2)
         \<and> net_calls w2 = net_calls mixed_world)"
proof -
  have stored: "api_key (store_api_key mixed_upload (setdefaults None)) = ''secret''"
    by (simp add: store_api_key_def setdefaults_def mixed_upload_def with_key_def untouched_def)
  then have key: "api_key (store_api_key mixed_upload (setdefaults None)) \<noteq> []"
    by simp
  have upload: "uploaded_file mixed_upload = Some (Inr mixed_workbook)"
    by (simp add: mixed_upload_def)
  have sheets: "Companies mixed_workbook = Some mixed_companies"
    "Projects mixed_workbook = Some one_project"
    by (simp_all add: mixed_workbook_def)
  have cols: "set companies_required \<subseteq> set (columns mixed_companies)"
    "set projects_required \<subseteq> set (columns one_project)"
    by (simp_all add: companies_required_def projects_required_def mixed_companies_def one_project_def)
  have two: "length (rows mixed_companies) = 2"
    by (simp add: mixed_companies_def)
  then have nonempty: "rows mixed_companies \<noteq> []"
    by auto
  have answers: "\<forall>x y. \<exists>v. provider_up (Client (api_key (store_api_key mixed_upload (setdefaults None)))) x y
                   (number_input mixed_upload (slider mixed_upload) * 60) = Inr v"
    by (simp add: provider_up_def)
  have cold: "cache cold = Map.empty"
    by (simp add: cold_def)
  have idle: "\<forall>label d. checkbox mixed_upload label d = d"
    by (simp add: mixed_upload_def with_key_def untouched_def)
  have points: "project_points (project_sites twin_session) @ company_points (rows mixed_companies)
       = [(PyInt (- 74), PyInt 40), (PyFloat (- 74), PyFloat 40),
          (PyFloat (- 741 / 10), PyFloat (401 / 10))]"
    by (simp add: project_points_def company_points_def twin_session_def mixed_companies_def)
  have different: "distinct (project_points (project_sites twin_session)
      @ company_points (rows mixed_companies))"
    unfolding points by simp
  have one: "length (project_points (project_sites twin_session)) = 1"
    by (simp add: project_points_def twin_session_def)
  from network_calls_on_cold_cache [where net = provider_up and ?net2.0 = provider_down
      and inp = mixed_upload and ?inp2.0 = mixed_upload and w = cold,
      OF reachable.fresh key upload sheets cols nonempty answers cold refl refl idle]
  obtain m legend s' w' m2 legend2 s2 w2 where
    first: "run provider_up mixed_upload None cold = (Rendered m legend, s', w')"
    and exact: "distinct (project_points (project_sites s') @ company_points (rows mixed_companies)) \<longrightarrow>
                length (net_calls w')
                  = length (net_calls cold)
                    + (length (project_points (project_sites s')) + length (rows mixed_companies))"
    and second: "run provider_down mixed_upload (Some s') w' = (Rendered m2 legend2, s2, w2)"
    and none: "net_calls w2 = net_calls w'"
    by blast
  from first mixed_pass have same: "s' = twin_session" "w' = mixed_world"
    by simp_all
  from exact different have "length (net_calls mixed_world) = length (net_calls cold) + (1 + 2)"
    unfolding same one two by blast
  moreover from second none have "\<exists>m2 legend2 s2 w2.
         run provider_down mixed_upload (Some twin_session) mixed_world = (Rendered m2 legend2, s2, w2)
         \<and> net_calls w2 = net_calls mixed_world"
    unfolding same by blast
  ultimately show ?thesis
    using reachable.fresh stored upload sheets cols two answers cold idle mixed_pass points different
    by (intro conjI)
qed

end
